theory Spec2Isabelle
  imports Main "HOL-Library.Word"
begin

section \<open>The transmitter state machine of lasertag/transmitter.c\<close>

text \<open>
  The module keeps its state in file-level variables. They are collected in one record that
  every operation takes and returns. The field names and widths are those of the source:
  \<open>signalTimer\<close> and \<open>period\<close> are \<open>uint16_t\<close>, \<open>pulseWidth\<close> is \<open>uint32_t\<close> and
  \<open>currentFrequency\<close> is \<open>uint8_t\<close>. The values handed to \<open>mio_writePin\<close> are logged in
  \<open>pinLog\<close>, newest first; the pin level is the head of that log.
\<close>

datatype transmitter_st_t = init_st | wait_st | sig_high_st | sig_low_st

record transmitter =
  currentState :: transmitter_st_t
  signalTimer :: "16 word"
  continuousModeOn :: bool
  running :: bool
  pulseWidth :: "32 word"
  debugOn :: bool
  currentFrequency :: "8 word"
  period :: "16 word"
  pinLog :: "nat list"

abbreviation (input) TRANSMITTER_HIGH_VALUE :: nat where
  "TRANSMITTER_HIGH_VALUE \<equiv> 1"

abbreviation (input) TRANSMITTER_LOW_VALUE :: nat where
  "TRANSMITTER_LOW_VALUE \<equiv> 0"

text \<open>
  Undefined behaviour of the C program is a value of the model: reading
  \<open>filter_frequencyTickTable\<close> beyond its end, and the remainder by a zero period.
\<close>

datatype fault = TableIndexOutOfRange | DivisionByZero

text \<open>
  The static initialisers of the file. \<open>TRANSMITTER_PULSE_WIDTH\<close> comes from a header
  that is not part of the sources, so it is a parameter.
\<close>

definition transmitter_static :: "32 word \<Rightarrow> transmitter" where
  "transmitter_static pulse_width_macro =
     \<lparr>currentState = init_st, signalTimer = 0, continuousModeOn = False, running = False,
      pulseWidth = pulse_width_macro, debugOn = False, currentFrequency = 0, period = 0,
      pinLog = []\<rparr>"

text \<open>
  \<open>filter_frequencyTickTable[currentFrequency]\<close>: the table is declared in filter.h,
  outside the sources, and is a parameter of every operation that reads it. Its entries are
  taken at the width of \<open>period\<close>, the variable they are assigned to.
\<close>

definition table_read :: "16 word list \<Rightarrow> 8 word \<Rightarrow> fault + 16 word" where
  "table_read tbl i =
     (if unat i < length tbl then Inr (tbl ! unat i) else Inl TableIndexOutOfRange)"

definition mio_writePin :: "nat \<Rightarrow> transmitter \<Rightarrow> transmitter" where
  "mio_writePin v s = s\<lparr>pinLog := v # pinLog s\<rparr>"

definition pinLevel :: "transmitter \<Rightarrow> nat option" where
  "pinLevel s = (case pinLog s of [] \<Rightarrow> None | v # _ \<Rightarrow> Some v)"

definition transmitter_setDebug :: "bool \<Rightarrow> transmitter \<Rightarrow> transmitter" where
  "transmitter_setDebug on s = s\<lparr>debugOn := on\<rparr>"

definition transmitter_setPulseWidth :: "32 word \<Rightarrow> transmitter \<Rightarrow> transmitter" where
  "transmitter_setPulseWidth width s = s\<lparr>pulseWidth := width\<rparr>"

definition transmitter_setContinuousModeOn :: "bool \<Rightarrow> transmitter \<Rightarrow> transmitter" where
  "transmitter_setContinuousModeOn on s = s\<lparr>continuousModeOn := on\<rparr>"

text \<open>
  \<open>transmitter_init\<close>. The calls \<open>mio_init\<close> and \<open>mio_setPinAsOutput\<close> configure the pin
  and write no level; they leave the record unchanged.
\<close>

definition transmitter_init :: "16 word list \<Rightarrow> transmitter \<Rightarrow> fault + transmitter" where
  "transmitter_init tbl s =
     (let s1 = s\<lparr>currentState := init_st, signalTimer := 0, running := False\<rparr>
      in case table_read tbl (currentFrequency s1) of
           Inl f \<Rightarrow> Inl f
         | Inr p \<Rightarrow> Inr (s1\<lparr>period := p\<rparr>))"

text \<open>
  The first \<open>switch\<close> of \<open>transmitter_tick\<close>. The operands of \<open>%\<close> and \<open>/\<close> are promoted
  to \<open>int\<close> and are not negative, so the arithmetic is that of the natural numbers;
  in \<open>signalTimer > pulseWidth\<close> the timer is converted to \<open>uint32_t\<close>.
\<close>

definition tick_transition :: "16 word list \<Rightarrow> transmitter \<Rightarrow> fault + transmitter" where
  "tick_transition tbl s =
     (case currentState s of
        init_st \<Rightarrow> Inr (s\<lparr>currentState := wait_st\<rparr>)
      | wait_st \<Rightarrow>
          if running s then
            (let s1 = (if \<not> continuousModeOn s then s\<lparr>running := False\<rparr> else s);
                 s2 = mio_writePin TRANSMITTER_HIGH_VALUE s1
             in case table_read tbl (currentFrequency s2) of
                  Inl f \<Rightarrow> Inl f
                | Inr p \<Rightarrow> Inr (s2\<lparr>period := p, signalTimer := 0, currentState := sig_high_st\<rparr>))
          else Inr s
      | sig_high_st \<Rightarrow>
          if period s = 0 then Inl DivisionByZero
          else if unat (period s) div 2 < unat (signalTimer s) mod unat (period s)
          then Inr (mio_writePin TRANSMITTER_LOW_VALUE (s\<lparr>currentState := sig_low_st\<rparr>))
          else Inr s
      | sig_low_st \<Rightarrow>
          if pulseWidth s < ucast (signalTimer s) then Inr (s\<lparr>currentState := wait_st\<rparr>)
          else if period s = 0 then Inl DivisionByZero
          else if unat (signalTimer s) mod unat (period s) < unat (period s) div 2
          then Inr (mio_writePin TRANSMITTER_HIGH_VALUE (s\<lparr>currentState := sig_high_st\<rparr>))
          else Inr s)"

text \<open>The second \<open>switch\<close>: \<open>signalTimer++\<close> wraps at 16 bits.\<close>

definition tick_action :: "transmitter \<Rightarrow> transmitter" where
  "tick_action s =
     (case currentState s of
        init_st \<Rightarrow> s
      | wait_st \<Rightarrow> s
      | sig_high_st \<Rightarrow> s\<lparr>signalTimer := signalTimer s + 1\<rparr>
      | sig_low_st \<Rightarrow> s\<lparr>signalTimer := signalTimer s + 1\<rparr>)"

definition transmitter_tick :: "16 word list \<Rightarrow> transmitter \<Rightarrow> fault + transmitter" where
  "transmitter_tick tbl s =
     (case tick_transition tbl s of Inl f \<Rightarrow> Inl f | Inr s' \<Rightarrow> Inr (tick_action s'))"

definition transmitter_run :: "transmitter \<Rightarrow> transmitter" where
  "transmitter_run s = s\<lparr>running := True\<rparr>"

definition transmitter_running :: "transmitter \<Rightarrow> bool" where
  "transmitter_running s = running s"

text \<open>The \<open>uint16_t\<close> argument is stored in the \<open>uint8_t\<close> variable and read back widened.\<close>

definition transmitter_setFrequencyNumber :: "16 word \<Rightarrow> transmitter \<Rightarrow> transmitter" where
  "transmitter_setFrequencyNumber frequencyNumber s = s\<lparr>currentFrequency := ucast frequencyNumber\<rparr>"

definition transmitter_getFrequencyNumber :: "transmitter \<Rightarrow> 16 word" where
  "transmitter_getFrequencyNumber s = ucast (currentFrequency s)"

definition transmitter_setContinuousMode :: "bool \<Rightarrow> transmitter \<Rightarrow> transmitter" where
  "transmitter_setContinuousMode continuousModeFlag s = s\<lparr>continuousModeOn := continuousModeFlag\<rparr>"

subsection \<open>Sequences of calls\<close>

text \<open>\<open>ticks tbl n\<close> is \<open>n\<close> consecutive calls of \<open>transmitter_tick\<close>, stopping at a fault.\<close>

fun ticks :: "16 word list \<Rightarrow> nat \<Rightarrow> transmitter \<Rightarrow> fault + transmitter" where
  "ticks tbl 0 s = Inr s"
| "ticks tbl (Suc n) s =
     (case transmitter_tick tbl s of Inl f \<Rightarrow> Inl f | Inr s' \<Rightarrow> ticks tbl n s')"

datatype call =
    Tick
  | Run
  | SetFrequencyNumber "16 word"
  | SetContinuousMode bool
  | SetContinuousModeOn bool
  | SetPulseWidth "32 word"
  | SetDebug bool
  | InitCall

fun step :: "16 word list \<Rightarrow> call \<Rightarrow> transmitter \<Rightarrow> fault + transmitter" where
  "step tbl Tick s = transmitter_tick tbl s"
| "step tbl Run s = Inr (transmitter_run s)"
| "step tbl (SetFrequencyNumber n) s = Inr (transmitter_setFrequencyNumber n s)"
| "step tbl (SetContinuousMode b) s = Inr (transmitter_setContinuousMode b s)"
| "step tbl (SetContinuousModeOn b) s = Inr (transmitter_setContinuousModeOn b s)"
| "step tbl (SetPulseWidth w) s = Inr (transmitter_setPulseWidth w s)"
| "step tbl (SetDebug b) s = Inr (transmitter_setDebug b s)"
| "step tbl InitCall s = transmitter_init tbl s"

fun exec :: "16 word list \<Rightarrow> call list \<Rightarrow> transmitter \<Rightarrow> fault + transmitter" where
  "exec tbl [] s = Inr s"
| "exec tbl (c # cs) s =
     (case step tbl c s of Inl f \<Rightarrow> Inl f | Inr s' \<Rightarrow> exec tbl cs s')"

subsection \<open>Observations and auxiliary predicates\<close>

text \<open>
  What a caller can observe after a run of calls: the state, the timer, the value returned by
  \<open>transmitter_running\<close> and the level last written to the pin; \<open>None\<close> after a fault.
\<close>

definition outcome :: "fault + transmitter \<Rightarrow> (transmitter_st_t \<times> nat \<times> bool \<times> nat option) option" where
  "outcome r =
     (case r of
        Inl f \<Rightarrow> None
      | Inr s \<Rightarrow> Some (currentState s, unat (signalTimer s), transmitter_running s, pinLevel s))"

definition state_timer :: "fault + transmitter \<Rightarrow> (transmitter_st_t \<times> nat) option" where
  "state_timer r =
     (case r of Inl f \<Rightarrow> None | Inr s \<Rightarrow> Some (currentState s, unat (signalTimer s)))"

text \<open>The states in which the calls of a sequence are made, the first one included.\<close>

fun visited :: "16 word list \<Rightarrow> call list \<Rightarrow> transmitter \<Rightarrow> transmitter list" where
  "visited tbl [] s = []"
| "visited tbl (c # cs) s =
     s # (case step tbl c s of Inl f \<Rightarrow> [] | Inr s' \<Rightarrow> visited tbl cs s')"

text \<open>A burst is in flight in \<open>sig_high_st\<close> and \<open>sig_low_st\<close>.\<close>

definition in_burst :: "transmitter \<Rightarrow> bool" where
  "in_burst s = (currentState s = sig_high_st \<or> currentState s = sig_low_st)"

text \<open>\<open>n\<close> ticks, each of them made while a burst is in flight.\<close>

fun burst_ticks :: "16 word list \<Rightarrow> nat \<Rightarrow> transmitter \<Rightarrow> transmitter option" where
  "burst_ticks tbl 0 s = Some s"
| "burst_ticks tbl (Suc n) s =
     (if in_burst s
      then (case transmitter_tick tbl s of Inl f \<Rightarrow> None | Inr s' \<Rightarrow> burst_ticks tbl n s')
      else None)"

text \<open>The configuration and the run request, which no tick inside a burst changes.\<close>

definition same_config :: "transmitter \<Rightarrow> transmitter \<Rightarrow> bool" where
  "same_config s s' =
     (running s' = running s \<and> continuousModeOn s' = continuousModeOn s \<and>
      pulseWidth s' = pulseWidth s \<and> currentFrequency s' = currentFrequency s \<and>
      period s' = period s \<and> debugOn s' = debugOn s)"

text \<open>
  The high half of a cycle, and the state reached by the tick that finds the timer at \<open>k\<close>
  in a one-shot burst started from \<open>s\<close> with period \<open>T\<close>.
\<close>

definition burst_phase :: "nat \<Rightarrow> nat \<Rightarrow> bool" where
  "burst_phase T k = (k mod T \<le> T div 2)"

definition burst_tick :: "transmitter \<Rightarrow> 16 word \<Rightarrow> nat \<Rightarrow> transmitter \<Rightarrow> bool" where
  "burst_tick s T k s' =
     (currentState s' = (if burst_phase (unat T) k then sig_high_st else sig_low_st) \<and>
      unat (signalTimer s') = Suc k \<and>
      pinLevel s' = Some (if burst_phase (unat T) k then TRANSMITTER_HIGH_VALUE else TRANSMITTER_LOW_VALUE) \<and>
      period s' = T \<and> \<not> running s' \<and> continuousModeOn s' = continuousModeOn s \<and>
      pulseWidth s' = pulseWidth s \<and> currentFrequency s' = currentFrequency s \<and>
      debugOn s' = debugOn s)"

section \<open>One tick\<close>

lemma timer_gt_width: "((P::32 word) < ucast (t::16 word)) = (unat P < unat t)"
  by (simp add: word_less_nat_alt unsigned_ucast_eq take_bit_nat_eq_self unsigned_less[THEN less_trans])

lemma tick_init:
  "currentState s = init_st \<Longrightarrow> transmitter_tick tbl s = Inr (s\<lparr>currentState := wait_st\<rparr>)"
  by (simp add: transmitter_tick_def tick_transition_def tick_action_def)

lemma tick_wait_idle:
  "currentState s = wait_st \<Longrightarrow> \<not> running s \<Longrightarrow> transmitter_tick tbl s = Inr s"
  by (simp add: transmitter_tick_def tick_transition_def tick_action_def)

lemma tick_wait_run:
  "currentState s = wait_st \<Longrightarrow> running s \<Longrightarrow> unat (currentFrequency s) < length tbl \<Longrightarrow>
   transmitter_tick tbl s =
     Inr (s\<lparr>currentState := sig_high_st, signalTimer := 1, running := continuousModeOn s,
           period := tbl ! unat (currentFrequency s), pinLog := TRANSMITTER_HIGH_VALUE # pinLog s\<rparr>)"
  by (simp add: transmitter_tick_def tick_transition_def tick_action_def table_read_def
      mio_writePin_def Let_def)

lemma tick_high:
  "currentState s = sig_high_st \<Longrightarrow> period s \<noteq> 0 \<Longrightarrow>
   transmitter_tick tbl s =
     Inr (if unat (period s) div 2 < unat (signalTimer s) mod unat (period s)
          then s\<lparr>currentState := sig_low_st, signalTimer := signalTimer s + 1,
                 pinLog := TRANSMITTER_LOW_VALUE # pinLog s\<rparr>
          else s\<lparr>signalTimer := signalTimer s + 1\<rparr>)"
  by (simp add: transmitter_tick_def tick_transition_def tick_action_def mio_writePin_def)

lemma tick_low:
  "currentState s = sig_low_st \<Longrightarrow> period s \<noteq> 0 \<Longrightarrow>
   transmitter_tick tbl s =
     Inr (if unat (pulseWidth s) < unat (signalTimer s) then s\<lparr>currentState := wait_st\<rparr>
          else if unat (signalTimer s) mod unat (period s) < unat (period s) div 2
          then s\<lparr>currentState := sig_high_st, signalTimer := signalTimer s + 1,
                 pinLog := TRANSMITTER_HIGH_VALUE # pinLog s\<rparr>
          else s\<lparr>signalTimer := signalTimer s + 1\<rparr>)"
  by (simp add: transmitter_tick_def tick_transition_def tick_action_def mio_writePin_def
      timer_gt_width)

lemma tick_low_wait:
  "currentState s = sig_low_st \<Longrightarrow> unat (pulseWidth s) < unat (signalTimer s) \<Longrightarrow>
   transmitter_tick tbl s = Inr (s\<lparr>currentState := wait_st\<rparr>)"
  by (simp add: transmitter_tick_def tick_transition_def tick_action_def timer_gt_width)

lemma ticks_add:
  "ticks tbl m s = Inr s' \<Longrightarrow> ticks tbl (m + n) s = ticks tbl n s'"
  by (induction m arbitrary: s) (auto split: sum.splits)

lemma ticks_Suc_end:
  "ticks tbl n s = Inr s' \<Longrightarrow> ticks tbl (Suc n) s = transmitter_tick tbl s'"
proof -
  assume a: "ticks tbl n s = Inr s'"
  have "ticks tbl (n + 1) s = ticks tbl 1 s'" using a by (rule ticks_add)
  then show ?thesis by (simp split: sum.splits)
qed

lemma ticks_numeral:
  "ticks tbl (numeral k) s =
     (case transmitter_tick tbl s of Inl f \<Rightarrow> Inl f | Inr s' \<Rightarrow> ticks tbl (pred_numeral k) s')"
  by (simp add: numeral_eq_Suc)

lemma burst_ticks_numeral:
  "burst_ticks tbl (numeral k) s =
     (if in_burst s
      then (case transmitter_tick tbl s of Inl f \<Rightarrow> None
            | Inr s' \<Rightarrow> burst_ticks tbl (pred_numeral k) s')
      else None)"
  by (simp add: numeral_eq_Suc)

lemma wait_idle_forever:
  "currentState s = wait_st \<Longrightarrow> \<not> running s \<Longrightarrow> ticks tbl m s = Inr s"
  by (induction m) (simp_all add: tick_wait_idle)

lemma exec_append:
  "exec tbl (cs @ ds) s = (case exec tbl cs s of Inl f \<Rightarrow> Inl f | Inr s' \<Rightarrow> exec tbl ds s')"
  by (induction cs arbitrary: s) (auto split: sum.splits)

lemma exec_replicate_Tick: "exec tbl (replicate n Tick) s = ticks tbl n s"
  by (induction n arbitrary: s) (auto split: sum.splits)

lemma tick_running_off_wait:
  "currentState s \<noteq> wait_st \<Longrightarrow>
   transmitter_tick tbl (s\<lparr>running := b\<rparr>) = map_sum id (\<lambda>s'. s'\<lparr>running := b\<rparr>) (transmitter_tick tbl s)"
  by (cases "currentState s")
     (simp_all add: transmitter_tick_def tick_transition_def tick_action_def mio_writePin_def)

text \<open>The equations that evaluate a run of calls on a concrete state.\<close>

lemmas tick_eval = transmitter_tick_def tick_transition_def tick_action_def table_read_def
  mio_writePin_def Let_def transmitter_run_def transmitter_setContinuousMode_def
  transmitter_setContinuousModeOn_def transmitter_setPulseWidth_def transmitter_setDebug_def
  transmitter_setFrequencyNumber_def transmitter_init_def transmitter_static_def
  outcome_def pinLevel_def transmitter_running_def timer_gt_width ticks_numeral

section \<open>The shape of a burst\<close>

lemma unat_timer_Suc:
  "unat (t::16 word) = k \<Longrightarrow> k < 65535 \<Longrightarrow> unat (t + 1) = Suc k"
  using unat_add_lem [of t 1] by simp


lemma phase_after_low:
  assumes "\<not> burst_phase T k" and "T \<noteq> 0"
  shows "(Suc k mod T < T div 2) = burst_phase T (Suc k)"
proof -
  from assms have gt: "T div 2 < k mod T" by (simp add: burst_phase_def)
  have T2: "2 \<le> T"
  proof (rule ccontr)
    assume "\<not> 2 \<le> T"
    with \<open>T \<noteq> 0\<close> have "T = 1" by simp
    with gt show False by simp
  qed
  show ?thesis
  proof (cases "Suc (k mod T) = T")
    case True
    then have "Suc k mod T = 0" by (simp add: mod_Suc)
    with T2 show ?thesis by (simp add: burst_phase_def)
  next
    case False
    then have "Suc k mod T = Suc (k mod T)" by (simp add: mod_Suc)
    with gt show ?thesis by (simp add: burst_phase_def)
  qed
qed

lemma burst_tick_step:
  assumes inv: "burst_tick s T k s'"
    and T: "T \<noteq> 0"
    and cont: "burst_phase (unat T) k \<or> Suc k \<le> unat (pulseWidth s)"
    and bound: "Suc k < 65535"
  shows "\<exists>s''. transmitter_tick tbl s' = Inr s'' \<and> burst_tick s T (Suc k) s''"
proof (cases "burst_phase (unat T) k")
  case True
  with inv have st: "currentState s' = sig_high_st" and per: "period s' = T"
    and tm: "unat (signalTimer s') = Suc k" by (simp_all add: burst_tick_def)
  have tm': "unat (signalTimer s' + 1) = Suc (Suc k)"
    using tm bound by (rule unat_timer_Suc)
  have ph: "(unat T div 2 < Suc k mod unat T) = (\<not> burst_phase (unat T) (Suc k))"
    by (auto simp: burst_phase_def)
  show ?thesis
    using inv True T tm' ph
    by (simp add: tick_high [OF st] per tm burst_tick_def pinLevel_def)
next
  case False
  with inv have st: "currentState s' = sig_low_st" and per: "period s' = T"
    and tm: "unat (signalTimer s') = Suc k" and pw: "pulseWidth s' = pulseWidth s"
    by (simp_all add: burst_tick_def)
  from False cont have le: "Suc k \<le> unat (pulseWidth s)" by simp
  have tm': "unat (signalTimer s' + 1) = Suc (Suc k)"
    using tm bound by (rule unat_timer_Suc)
  have "unat T \<noteq> 0" using T by (simp add: unat_eq_zero)
  note ph = phase_after_low [OF False this]
  show ?thesis
    using inv False T tm' ph le
    by (simp add: tick_low [OF st] per tm pw burst_tick_def pinLevel_def)
qed

lemma burst_tick_start:
  assumes "currentState s = wait_st" "running s" "\<not> continuousModeOn s"
    and "unat (currentFrequency s) < length tbl"
  shows "\<exists>s'. transmitter_tick tbl s = Inr s' \<and>
     burst_tick s (tbl ! unat (currentFrequency s)) 0 s'"
  using assms by (simp add: tick_wait_run burst_tick_def burst_phase_def pinLevel_def)

lemma burst_pattern:
  assumes w: "currentState s = wait_st" "running s" "\<not> continuousModeOn s"
    and idx: "unat (currentFrequency s) < length tbl"
    and T: "tbl ! unat (currentFrequency s) = T" "T \<noteq> 0"
  shows "(\<forall>j<k. burst_phase (unat T) j \<or> Suc j \<le> unat (pulseWidth s)) \<Longrightarrow> k < 65535 \<Longrightarrow>
     \<exists>s'. ticks tbl (Suc k) s = Inr s' \<and> burst_tick s T k s'"
proof (induction k)
  case 0
  show ?case using burst_tick_start [OF w idx] T by auto
next
  case (Suc k)
  then obtain s' where s': "ticks tbl (Suc k) s = Inr s'" "burst_tick s T k s'"
    by auto
  from Suc.prems have "burst_phase (unat T) k \<or> Suc k \<le> unat (pulseWidth s)" by simp
  from burst_tick_step [OF s'(2) T(2) this] Suc.prems(2)
  obtain s'' where "transmitter_tick tbl s' = Inr s''" "burst_tick s T (Suc k) s''"
    by auto
  then show ?case using ticks_Suc_end [OF s'(1)] by simp
qed

lemma tick_in_burst:
  assumes "in_burst s" "period s \<noteq> 0"
    and "currentState s = sig_high_st \<or> unat (signalTimer s) \<le> unat (pulseWidth s)"
  shows "\<exists>s'. transmitter_tick tbl s = Inr s' \<and> in_burst s' \<and>
     signalTimer s' = signalTimer s + 1 \<and> same_config s s'"
proof (cases "currentState s = sig_high_st")
  case True
  then show ?thesis using assms(2) by (simp add: tick_high in_burst_def same_config_def)
next
  case False
  with assms have "currentState s = sig_low_st"
    "\<not> unat (pulseWidth s) < unat (signalTimer s)" by (auto simp: in_burst_def)
  then show ?thesis using assms(2) by (simp add: tick_low in_burst_def same_config_def)
qed

lemma same_config_refl: "same_config s s"
  by (simp add: same_config_def)

lemma same_config_trans: "same_config s s' \<Longrightarrow> same_config s' s'' \<Longrightarrow> same_config s s''"
  by (simp add: same_config_def)


lemma high_low_now:
  assumes "currentState s = sig_high_st" "period s \<noteq> 0"
    and "unat (period s) div 2 < unat (signalTimer s) mod unat (period s)"
  shows "\<exists>s'. ticks tbl (Suc 0) s = Inr s' \<and> currentState s' = sig_low_st \<and>
     signalTimer s' = signalTimer s + 1 \<and> same_config s s'"
  using assms by (simp add: tick_high same_config_def)

lemma high_to_low:
  "currentState s = sig_high_st \<Longrightarrow> period s \<noteq> 0 \<Longrightarrow>
   unat (period s) div 2 < unat (signalTimer s + of_nat j) mod unat (period s) \<Longrightarrow>
   \<exists>n s'. n \<le> j \<and> ticks tbl (Suc n) s = Inr s' \<and> currentState s' = sig_low_st \<and>
     signalTimer s' = signalTimer s + of_nat (Suc n) \<and> same_config s s'"
proof (induction j arbitrary: s)
  case 0
  then have "unat (period s) div 2 < unat (signalTimer s) mod unat (period s)" by simp
  from high_low_now [OF "0.prems"(1,2) this, of tbl]
  obtain s' where "ticks tbl (Suc 0) s = Inr s'" "currentState s' = sig_low_st"
    "signalTimer s' = signalTimer s + 1" "same_config s s'" by blast
  then show ?case by (intro exI [of _ 0] exI [of _ s']) simp
next
  case (Suc j)
  show ?case
  proof (cases "unat (period s) div 2 < unat (signalTimer s) mod unat (period s)")
    case True
    from high_low_now [OF Suc.prems(1,2) this, of tbl]
    obtain s' where "ticks tbl (Suc 0) s = Inr s'" "currentState s' = sig_low_st"
      "signalTimer s' = signalTimer s + 1" "same_config s s'" by blast
    then show ?thesis by (intro exI [of _ 0] exI [of _ s']) simp
  next
    case False
    let ?s1 = "s\<lparr>signalTimer := signalTimer s + 1\<rparr>"
    from False Suc.prems have tk: "transmitter_tick tbl s = Inr ?s1"
      by (simp add: tick_high)
    have "signalTimer ?s1 + of_nat j = signalTimer s + of_nat (Suc j)"
      by (simp add: add.assoc)
    with Suc.prems(3) have
      "unat (period ?s1) div 2 < unat (signalTimer ?s1 + of_nat j) mod unat (period ?s1)"
      by (simp add: add.assoc)
    with Suc.IH [of ?s1] Suc.prems(1,2)
    obtain n s' where n: "n \<le> j" "ticks tbl (Suc n) ?s1 = Inr s'" "currentState s' = sig_low_st"
      "signalTimer s' = signalTimer ?s1 + of_nat (Suc n)" "same_config ?s1 s'"
      by auto
    have "ticks tbl (Suc (Suc n)) s = Inr s'" using tk n(2) by simp
    moreover have "signalTimer s' = signalTimer s + of_nat (Suc (Suc n))"
      using n(4) by (simp add: add.assoc)
    moreover have "same_config s s'" using n(5) by (simp add: same_config_def)
    ultimately show ?thesis using n(1,3) by (intro exI [of _ "Suc n"] exI [of _ s']) simp
  qed
qed

lemma residue_top:
  assumes "0 < (T::nat)"
  shows "(t + (T - 1 - t mod T)) mod T = T - 1"
proof -
  have lt: "t mod T < T" using assms by simp
  have "t + (T - 1 - t mod T) = t div T * T + (t mod T + (T - 1 - t mod T))"
    by (simp add: add.assoc [symmetric])
  also have "t mod T + (T - 1 - t mod T) = T - 1" using lt by simp
  finally have "(t + (T - 1 - t mod T)) mod T = (T - 1) mod T" by simp
  then show ?thesis using assms by simp
qed

lemma first_low_after:
  assumes "3 \<le> (T::nat)"
  shows "\<exists>u. P \<le> u \<and> u < P + T \<and> T div 2 < u mod T \<and>
     (\<forall>t. P \<le> t \<and> t < u \<longrightarrow> t mod T \<le> T div 2)"
proof -
  define Q where "Q = (\<lambda>u. P \<le> u \<and> T div 2 < u mod T)"
  define u0 where "u0 = P + (T - 1 - P mod T)"
  have "u0 mod T = T - 1" unfolding u0_def using assms by (intro residue_top) simp
  then have q0: "Q u0" using assms by (simp add: Q_def u0_def)
  define u where "u = (LEAST u. Q u)"
  have qu: "Q u" unfolding u_def using q0 by (rule LeastI)
  have "u \<le> u0" unfolding u_def using q0 by (rule Least_le)
  moreover have "u0 < P + T" using assms by (simp add: u0_def)
  ultimately have lt: "u < P + T" by simp
  have "\<not> Q t" if "t < u" for t using that unfolding u_def by (rule not_less_Least)
  then have "\<forall>t. P \<le> t \<and> t < u \<longrightarrow> t mod T \<le> T div 2"
    by (auto simp: Q_def not_less)
  with qu lt show ?thesis unfolding Q_def by blast
qed



section \<open>Bursts that cannot end\<close>

lemma high_period_2_stays:
  "currentState s = sig_high_st \<Longrightarrow> period s = 2 \<Longrightarrow>
   \<exists>s'. ticks tbl n s = Inr s' \<and> currentState s' = sig_high_st"
proof (induction n arbitrary: s)
  case 0
  then show ?case by simp
next
  case (Suc n)
  have "unat (signalTimer s) mod 2 \<le> 1" by arith
  then have "transmitter_tick tbl s = Inr (s\<lparr>signalTimer := signalTimer s + 1\<rparr>)"
    using Suc.prems by (simp add: tick_high)
  moreover have "\<exists>s'. ticks tbl n (s\<lparr>signalTimer := signalTimer s + 1\<rparr>) = Inr s' \<and>
    currentState s' = sig_high_st"
    using Suc.prems by (intro Suc.IH) simp_all
  ultimately show ?case by simp
qed

lemma high_small_period_stays:
  "currentState s = sig_high_st \<Longrightarrow> period s \<noteq> 0 \<Longrightarrow> unat (period s) \<le> 2 \<Longrightarrow>
   \<exists>s'. ticks tbl n s = Inr s' \<and> currentState s' = sig_high_st"
proof (induction n arbitrary: s)
  case 0
  then show ?case by simp
next
  case (Suc n)
  from Suc.prems(2) have "unat (period s) \<noteq> 0" by (simp add: unat_eq_zero)
  with Suc.prems(3) have "unat (period s) = 1 \<or> unat (period s) = 2" by arith
  then have "unat (signalTimer s) mod unat (period s) \<le> unat (period s) div 2"
  proof
    assume "unat (period s) = 1"
    then show ?thesis by simp
  next
    assume p: "unat (period s) = 2"
    have "unat (signalTimer s) mod 2 \<le> 1" by arith
    then show ?thesis by (simp add: p)
  qed
  then have "transmitter_tick tbl s = Inr (s\<lparr>signalTimer := signalTimer s + 1\<rparr>)"
    using Suc.prems by (simp add: tick_high)
  moreover have "\<exists>s'. ticks tbl n (s\<lparr>signalTimer := signalTimer s + 1\<rparr>) = Inr s' \<and>
    currentState s' = sig_high_st"
    using Suc.prems by (intro Suc.IH) simp_all
  ultimately show ?case by simp
qed

lemma wide_tick:
  assumes "in_burst s" "period s \<noteq> 0" "65535 \<le> unat (pulseWidth s)"
  shows "\<exists>s'. transmitter_tick tbl s = Inr s' \<and> in_burst s' \<and>
     signalTimer s' = signalTimer s + 1 \<and> same_config s s'"
proof -
  have "unat (signalTimer s) < 65536" using unsigned_less [of "signalTimer s"] by simp
  with assms(3) have "unat (signalTimer s) \<le> unat (pulseWidth s)" by simp
  then show ?thesis by (intro tick_in_burst assms(1,2)) simp
qed

lemma wide_ticks:
  "in_burst s \<Longrightarrow> period s \<noteq> 0 \<Longrightarrow> 65535 \<le> unat (pulseWidth s) \<Longrightarrow>
   \<exists>s'. ticks tbl n s = Inr s' \<and> in_burst s' \<and> same_config s s'"
proof (induction n arbitrary: s)
  case 0
  then show ?case by (simp add: same_config_refl)
next
  case (Suc n)
  from wide_tick [OF Suc.prems, of tbl]
  obtain s1 where s1: "transmitter_tick tbl s = Inr s1" "in_burst s1" "same_config s s1"
    by blast
  then have cfg: "period s1 = period s" "pulseWidth s1 = pulseWidth s"
    by (simp_all add: same_config_def)
  from Suc.IH [OF s1(2), of ] Suc.prems(2,3)
  obtain s' where "ticks tbl n s1 = Inr s'" "in_burst s'" "same_config s1 s'"
    by (auto simp: cfg)
  then show ?case using s1(1,3) by (auto intro: same_config_trans)
qed

lemma low_high_now:
  assumes "currentState s = sig_low_st" "period s \<noteq> 0" "65535 \<le> unat (pulseWidth s)"
    and "unat (signalTimer s) mod unat (period s) < unat (period s) div 2"
  shows "\<exists>s'. ticks tbl (Suc 0) s = Inr s' \<and> currentState s' = sig_high_st"
proof -
  have "unat (signalTimer s) < 65536" using unsigned_less [of "signalTimer s"] by simp
  with assms(3) have "\<not> unat (pulseWidth s) < unat (signalTimer s)" by simp
  then show ?thesis using assms by (simp add: tick_low)
qed

lemma low_to_high:
  "currentState s = sig_low_st \<Longrightarrow> period s \<noteq> 0 \<Longrightarrow> 65535 \<le> unat (pulseWidth s) \<Longrightarrow>
   unat (signalTimer s + of_nat j) mod unat (period s) < unat (period s) div 2 \<Longrightarrow>
   \<exists>n s'. ticks tbl (Suc n) s = Inr s' \<and> currentState s' = sig_high_st"
proof (induction j arbitrary: s)
  case 0
  then have "unat (signalTimer s) mod unat (period s) < unat (period s) div 2" by simp
  from low_high_now [OF "0.prems"(1,2,3) this, of tbl] show ?case by blast
next
  case (Suc j)
  show ?case
  proof (cases "unat (signalTimer s) mod unat (period s) < unat (period s) div 2")
    case True
    from low_high_now [OF Suc.prems(1,2,3) this, of tbl] show ?thesis by blast
  next
    case False
    let ?s1 = "s\<lparr>signalTimer := signalTimer s + 1\<rparr>"
    have "unat (signalTimer s) < 65536" using unsigned_less [of "signalTimer s"] by simp
    with Suc.prems(3) have "\<not> unat (pulseWidth s) < unat (signalTimer s)" by simp
    with False Suc.prems have tk: "transmitter_tick tbl s = Inr ?s1"
      by (simp add: tick_low)
    have "signalTimer ?s1 + of_nat j = signalTimer s + of_nat (Suc j)"
      by (simp add: add.assoc)
    with Suc.prems(4) have
      "unat (signalTimer ?s1 + of_nat j) mod unat (period ?s1) < unat (period ?s1) div 2"
      by (simp add: add.assoc)
    with Suc.IH [of ?s1] Suc.prems(1,2,3)
    obtain n s' where "ticks tbl (Suc n) ?s1 = Inr s'" "currentState s' = sig_high_st"
      by auto
    then have "ticks tbl (Suc (Suc n)) s = Inr s' \<and> currentState s' = sig_high_st"
      using tk by simp
    then show ?thesis by blast
  qed
qed

lemma eventually_low:
  assumes "in_burst s" "3 \<le> unat (period s)"
  shows "\<exists>m s'. ticks tbl m s = Inr s' \<and> currentState s' = sig_low_st"
proof (cases "currentState s = sig_low_st")
  case True
  then have "ticks tbl 0 s = Inr s \<and> currentState s = sig_low_st" by simp
  then show ?thesis by blast
next
  case False
  with assms(1) have hi: "currentState s = sig_high_st" by (simp add: in_burst_def)
  from assms(2) have p0: "period s \<noteq> 0" by auto
  define T where "T = unat (period s)"
  have Tlt: "T < 65536" unfolding T_def using unsigned_less [of "period s"] by simp
  define j where "j = unat ((of_nat (T div 2 + 1) :: 16 word) - signalTimer s)"
  have "signalTimer s + of_nat j = of_nat (T div 2 + 1)" by (simp add: j_def)
  moreover have "unat (of_nat (T div 2 + 1) :: 16 word) = T div 2 + 1"
    using Tlt by (simp only: unat_of_nat) simp
  moreover have "(T div 2 + 1) mod T = T div 2 + 1" using assms(2) by (simp add: T_def)
  ultimately have "unat (period s) div 2 < unat (signalTimer s + of_nat j) mod unat (period s)"
    by (simp add: T_def)
  from high_to_low [OF hi p0 this, of tbl] show ?thesis by blast
qed

lemma eventually_high:
  assumes "in_burst s" "3 \<le> unat (period s)" "65535 \<le> unat (pulseWidth s)"
  shows "\<exists>m s'. ticks tbl m s = Inr s' \<and> currentState s' = sig_high_st"
proof (cases "currentState s = sig_high_st")
  case True
  then have "ticks tbl 0 s = Inr s \<and> currentState s = sig_high_st" by simp
  then show ?thesis by blast
next
  case False
  with assms(1) have lo: "currentState s = sig_low_st" by (simp add: in_burst_def)
  from assms(2) have p0: "period s \<noteq> 0" by auto
  define j where "j = unat (0 - signalTimer s)"
  have "signalTimer s + of_nat j = 0" by (simp add: j_def)
  then have "unat (signalTimer s + of_nat j) mod unat (period s) < unat (period s) div 2"
    using assms(2) by simp
  from low_to_high [OF lo p0 assms(3) this, of tbl] show ?thesis by blast
qed

section \<open>The cached period and the run request\<close>

lemma tick_period_outside_wait:
  "transmitter_tick tbl s = Inr s' \<Longrightarrow> currentState s \<noteq> wait_st \<Longrightarrow> period s' = period s"
  by (cases "currentState s")
     (auto simp: transmitter_tick_def tick_transition_def tick_action_def mio_writePin_def
       split: if_splits)

lemma step_period_outside_wait:
  "step tbl c s = Inr s' \<Longrightarrow> c \<noteq> InitCall \<Longrightarrow> currentState s \<noteq> wait_st \<Longrightarrow>
   period s' = period s"
  by (cases c)
     (auto simp: tick_period_outside_wait transmitter_run_def transmitter_setFrequencyNumber_def
       transmitter_setContinuousMode_def transmitter_setContinuousModeOn_def
       transmitter_setPulseWidth_def transmitter_setDebug_def)

lemma step_period_changes:
  "step tbl c s = Inr s' \<Longrightarrow> period s' \<noteq> period s \<Longrightarrow>
   c = InitCall \<or> (c = Tick \<and> currentState s = wait_st \<and> running s \<and> currentState s' = sig_high_st)"
  by (cases c; cases "currentState s")
     (auto simp: transmitter_tick_def tick_transition_def tick_action_def mio_writePin_def
       table_read_def Let_def
       transmitter_run_def transmitter_setFrequencyNumber_def
       transmitter_setContinuousMode_def transmitter_setContinuousModeOn_def
       transmitter_setPulseWidth_def transmitter_setDebug_def
       split: if_splits)

lemma exec_period_in_burst:
  "exec tbl cs s = Inr s' \<Longrightarrow> InitCall \<notin> set cs \<Longrightarrow>
   \<forall>x \<in> set (visited tbl cs s). in_burst x \<Longrightarrow> period s' = period s"
proof (induction cs arbitrary: s)
  case Nil
  then show ?case by simp
next
  case (Cons c cs)
  from Cons.prems(1) obtain s1 where s1: "step tbl c s = Inr s1" "exec tbl cs s1 = Inr s'"
    by (auto split: sum.splits)
  from Cons.prems(3) have b: "in_burst s" and rest: "\<forall>x \<in> set (visited tbl cs s1). in_burst x"
    by (simp_all add: s1(1))
  from b have "currentState s \<noteq> wait_st" by (auto simp: in_burst_def)
  with s1(1) Cons.prems(2) have "period s1 = period s"
    by (intro step_period_outside_wait) auto
  moreover have "period s' = period s1"
    using Cons.prems(2) rest by (intro Cons.IH [OF s1(2)]) auto
  ultimately show ?case by simp
qed

lemma tick_frequency_in_burst:
  "in_burst s \<Longrightarrow>
   transmitter_tick tbl' (s\<lparr>currentFrequency := f\<rparr>) =
     map_sum id (\<lambda>s'. s'\<lparr>currentFrequency := f\<rparr>) (transmitter_tick tbl s)"
  by (cases "currentState s")
     (simp_all add: in_burst_def transmitter_tick_def tick_transition_def tick_action_def
       mio_writePin_def)

lemma burst_ticks_setFrequencyNumber:
  "burst_ticks tbl k s = Some s' \<Longrightarrow>
   ticks tbl' k (transmitter_setFrequencyNumber n s) = Inr (transmitter_setFrequencyNumber n s')"
proof (induction k arbitrary: s)
  case 0
  then show ?case by simp
next
  case (Suc k)
  from Suc.prems obtain s1 where s1: "in_burst s" "transmitter_tick tbl s = Inr s1"
    "burst_ticks tbl k s1 = Some s'"
    by (auto split: if_splits sum.splits)
  from tick_frequency_in_burst [OF s1(1), of tbl' "ucast n" tbl] s1(2)
  have "transmitter_tick tbl' (transmitter_setFrequencyNumber n s) =
      Inr (transmitter_setFrequencyNumber n s1)"
    by (simp add: transmitter_setFrequencyNumber_def)
  with Suc.IH [OF s1(3)] show ?case by simp
qed

lemma burst_start_reads_table:
  assumes "currentState s = wait_st" "running s" "unat (currentFrequency s) < length tbl"
  shows "\<exists>h. transmitter_tick tbl s = Inr h \<and> currentState h = sig_high_st \<and>
     period h = tbl ! unat (currentFrequency s) \<and> signalTimer h = 1"
  using assms by (simp add: tick_wait_run)

lemma step_keeps_running:
  "step tbl c s = Inr s' \<Longrightarrow> continuousModeOn s \<Longrightarrow> running s \<Longrightarrow>
   c \<noteq> SetContinuousMode False \<Longrightarrow> c \<noteq> SetContinuousModeOn False \<Longrightarrow> c \<noteq> InitCall \<Longrightarrow>
   continuousModeOn s' \<and> running s'"
  by (cases c; cases "currentState s")
     (auto simp: transmitter_tick_def tick_transition_def tick_action_def mio_writePin_def
       table_read_def Let_def
       transmitter_run_def transmitter_setFrequencyNumber_def
       transmitter_setContinuousMode_def transmitter_setContinuousModeOn_def
       transmitter_setPulseWidth_def transmitter_setDebug_def
       split: if_splits)

lemma exec_keeps_running:
  "exec tbl cs s = Inr s' \<Longrightarrow> continuousModeOn s \<Longrightarrow> running s \<Longrightarrow>
   SetContinuousMode False \<notin> set cs \<Longrightarrow> SetContinuousModeOn False \<notin> set cs \<Longrightarrow>
   InitCall \<notin> set cs \<Longrightarrow> continuousModeOn s' \<and> running s'"
proof (induction cs arbitrary: s)
  case Nil
  then show ?case by simp
next
  case (Cons c cs)
  from Cons.prems(1) obtain s1 where s1: "step tbl c s = Inr s1" "exec tbl cs s1 = Inr s'"
    by (auto split: sum.splits)
  from Cons.prems have "continuousModeOn s1 \<and> running s1"
    by (intro step_keeps_running [OF s1(1)]) auto
  with Cons.prems show ?case by (intro Cons.IH [OF s1(2)]) auto
qed

lemma burst_ticks_run:
  "burst_ticks tbl n s = Some s' \<Longrightarrow>
   ticks tbl n s = Inr s' \<and> ticks tbl n (transmitter_run s) = Inr (transmitter_run s')"
proof (induction n arbitrary: s)
  case 0
  then show ?case by simp
next
  case (Suc n)
  from Suc.prems obtain s1 where s1: "in_burst s" "transmitter_tick tbl s = Inr s1"
    "burst_ticks tbl n s1 = Some s'"
    by (auto split: if_splits sum.splits)
  from s1(1) have "currentState s \<noteq> wait_st" by (auto simp: in_burst_def)
  from tick_running_off_wait [OF this, of tbl True] s1(2)
  have "transmitter_tick tbl (transmitter_run s) = Inr (transmitter_run s1)"
    by (simp add: transmitter_run_def)
  with s1(2) Suc.IH [OF s1(3)] show ?case by simp
qed

section \<open>What the running query reports\<close>

text \<open>
  C1 (as amended). \<open>transmitter_running\<close> returns the run request, not the activity of a
  burst: \<open>transmitter_run\<close> sets it, \<open>transmitter_init\<close> clears it, a tick clears it
  when it finds the machine in \<open>wait_st\<close> with continuous mode off (the request is consumed
  as the burst starts), and no other call changes it.
\<close>

theorem running_is_run_request:
  "step tbl c s = Inr s' \<Longrightarrow>
   transmitter_running s' =
     (if c = Run then True
      else if c = InitCall then False
      else if c = Tick \<and> currentState s = wait_st \<and> \<not> continuousModeOn s then False
      else transmitter_running s)"
  by (cases c; cases "currentState s")
     (auto simp: tick_eval split: if_splits sum.splits)

text \<open>
  The tick that starts a one-shot burst from \<open>wait_st\<close> with a pending request, on the table
  \<open>[10]\<close>: the machine is in \<open>sig_high_st\<close> and the query answers false.
\<close>

theorem running_is_run_request_witness:
  "step [10] Tick (transmitter_run ((transmitter_static 20000)\<lparr>currentState := wait_st\<rparr>)) =
     Inr \<lparr>currentState = sig_high_st, signalTimer = 1, continuousModeOn = False, running = False,
          pulseWidth = 20000, debugOn = False, currentFrequency = 0, period = 10,
          pinLog = [TRANSMITTER_HIGH_VALUE]\<rparr>
   \<and> \<not> transmitter_running \<lparr>currentState = sig_high_st, signalTimer = 1, continuousModeOn = False,
          running = False, pulseWidth = 20000, debugOn = False, currentFrequency = 0, period = 10,
          pinLog = [TRANSMITTER_HIGH_VALUE]\<rparr>"
proof -
  have st: "step [10] Tick (transmitter_run ((transmitter_static 20000)\<lparr>currentState := wait_st\<rparr>)) =
     Inr \<lparr>currentState = sig_high_st, signalTimer = 1, continuousModeOn = False, running = False,
          pulseWidth = 20000, debugOn = False, currentFrequency = 0, period = 10,
          pinLog = [TRANSMITTER_HIGH_VALUE]\<rparr>"
    by (simp add: tick_eval)
  from running_is_run_request [OF st] st show ?thesis
    by (simp add: transmitter_run_def transmitter_static_def)
qed

text \<open>
  C1 (as stated) fails: after \<open>init\<close>, \<open>run\<close> and two ticks the machine is in
  \<open>sig_high_st\<close>, the pin is high, and \<open>transmitter_running\<close> is false.
\<close>

theorem running_false_during_burst:
  "outcome (exec [10] [InitCall, Run, Tick, Tick] (transmitter_static 20000))
     = Some (sig_high_st, 1, False, Some TRANSMITTER_HIGH_VALUE)"
  by (simp add: tick_eval)

section \<open>A one-shot burst\<close>

text \<open>
  C2 (as amended). Let the period \<open>T\<close> read at the start of the burst satisfy \<open>3 \<le> T \<le> P\<close>
  and \<open>P + T < 65535\<close>, where \<open>P\<close> is the pulse width, and let \<open>u\<close> be the first timer value
  from \<open>P\<close> on with \<open>u mod T > T div 2\<close>; it is less than \<open>P + T\<close>. After one \<open>run\<close> in
  non-continuous mode, the tick that finds the timer at \<open>t\<close> (the tick that starts the burst
  for \<open>t = 0\<close>) leaves the pin high and the machine in \<open>sig_high_st\<close> if
  \<open>t mod T \<le> T div 2\<close>, and the pin low and the machine in \<open>sig_low_st\<close> otherwise, for
  every \<open>t \<le> u\<close>, so also for every \<open>t \<le> P\<close>; \<open>transmitter_running\<close> is false
  throughout. The tick that finds the timer at \<open>u\<close> leaves the machine in \<open>sig_low_st\<close>
  with the pin low, and the next tick takes it from there to \<open>wait_st\<close>, where further ticks
  change nothing.
\<close>

theorem one_shot_burst:
  assumes w: "currentState s = wait_st" "running s" "\<not> continuousModeOn s"
    and idx: "unat (currentFrequency s) < length tbl"
    and T: "tbl ! unat (currentFrequency s) = T"
    and T3: "3 \<le> unat T" and TP: "unat T \<le> unat (pulseWidth s)"
    and nowrap: "unat (pulseWidth s) + unat T < 65535"
  shows "\<exists>u. unat (pulseWidth s) \<le> u \<and> u < unat (pulseWidth s) + unat T \<and>
       unat T div 2 < u mod unat T \<and>
       (\<forall>t. unat (pulseWidth s) \<le> t \<and> t < u \<longrightarrow> t mod unat T \<le> unat T div 2) \<and>
       (\<forall>t \<le> u. \<exists>s'. ticks tbl (Suc t) s = Inr s' \<and>
            unat (signalTimer s') = Suc t \<and> period s' = T \<and>
            pinLevel s' = Some (if t mod unat T \<le> unat T div 2
                                then TRANSMITTER_HIGH_VALUE else TRANSMITTER_LOW_VALUE) \<and>
            currentState s' = (if t mod unat T \<le> unat T div 2 then sig_high_st else sig_low_st) \<and>
            \<not> transmitter_running s') \<and>
       (\<exists>s'. ticks tbl (Suc (Suc u)) s = Inr s' \<and> currentState s' = wait_st \<and>
            pinLevel s' = Some TRANSMITTER_LOW_VALUE \<and> unat (signalTimer s') = Suc u \<and>
            \<not> transmitter_running s' \<and> (\<forall>m. ticks tbl (Suc (Suc u) + m) s = Inr s'))"
proof -
  from T3 have T0: "T \<noteq> 0" by auto
  define P where "P = unat (pulseWidth s)"
  from first_low_after [OF T3, of P] obtain u where u: "P \<le> u" "u < P + unat T"
    "unat T div 2 < u mod unat T" "\<forall>t. P \<le> t \<and> t < u \<longrightarrow> t mod unat T \<le> unat T div 2"
    by blast
  have pat: "\<exists>s'. ticks tbl (Suc t) s = Inr s' \<and> burst_tick s T t s'" if "t \<le> u" for t
  proof (intro burst_pattern [OF w idx T T0] allI impI)
    fix j assume "j < t"
    with that have ju: "j < u" by simp
    show "burst_phase (unat T) j \<or> Suc j \<le> unat (pulseWidth s)"
    proof (cases "j < P")
      case True
      then show ?thesis by (simp add: P_def)
    next
      case False
      with ju u(4) have "j mod unat T \<le> unat T div 2" by simp
      then show ?thesis by (simp add: burst_phase_def)
    qed
  next
    show "t < 65535" using that u(2) nowrap by (simp add: P_def)
  qed
  have shape: "\<forall>t \<le> u. \<exists>s'. ticks tbl (Suc t) s = Inr s' \<and>
            unat (signalTimer s') = Suc t \<and> period s' = T \<and>
            pinLevel s' = Some (if t mod unat T \<le> unat T div 2
                                then TRANSMITTER_HIGH_VALUE else TRANSMITTER_LOW_VALUE) \<and>
            currentState s' = (if t mod unat T \<le> unat T div 2 then sig_high_st else sig_low_st) \<and>
            \<not> transmitter_running s'"
  proof (intro allI impI)
    fix t assume "t \<le> u"
    from pat [OF this] obtain s' where "ticks tbl (Suc t) s = Inr s'" "burst_tick s T t s'"
      by blast
    then show "\<exists>s'. ticks tbl (Suc t) s = Inr s' \<and>
            unat (signalTimer s') = Suc t \<and> period s' = T \<and>
            pinLevel s' = Some (if t mod unat T \<le> unat T div 2
                                then TRANSMITTER_HIGH_VALUE else TRANSMITTER_LOW_VALUE) \<and>
            currentState s' = (if t mod unat T \<le> unat T div 2 then sig_high_st else sig_low_st) \<and>
            \<not> transmitter_running s'"
      by (intro exI [of _ s']) (simp add: burst_tick_def burst_phase_def transmitter_running_def)
  qed
  from pat [of u] obtain su where su: "ticks tbl (Suc u) s = Inr su" "burst_tick s T u su"
    by auto
  from su(2) u(3) have fu: "currentState su = sig_low_st"
    "pinLevel su = Some TRANSMITTER_LOW_VALUE" "unat (signalTimer su) = Suc u"
    "pulseWidth su = pulseWidth s" "\<not> running su"
    by (simp_all add: burst_tick_def burst_phase_def)
  let ?e = "su\<lparr>currentState := wait_st\<rparr>"
  have "transmitter_tick tbl su = Inr ?e"
    using fu u(1) by (intro tick_low_wait) (simp_all add: P_def)
  with ticks_Suc_end [OF su(1)] have tk: "ticks tbl (Suc (Suc u)) s = Inr ?e" by (simp only:)
  have fe: "currentState ?e = wait_st" "\<not> running ?e" using fu by simp_all
  have "ticks tbl (Suc (Suc u) + m) s = Inr ?e" for m
    using ticks_add [OF tk, of m] wait_idle_forever [OF fe, of tbl m] by (simp only:)
  with tk fu have fin: "\<exists>s'. ticks tbl (Suc (Suc u)) s = Inr s' \<and> currentState s' = wait_st \<and>
            pinLevel s' = Some TRANSMITTER_LOW_VALUE \<and> unat (signalTimer s') = Suc u \<and>
            \<not> transmitter_running s' \<and> (\<forall>m. ticks tbl (Suc (Suc u) + m) s = Inr s')"
    by (intro exI [of _ ?e]) (simp add: pinLevel_def transmitter_running_def del: ticks.simps)
  from u shape fin show ?thesis unfolding P_def by blast
qed

text \<open>
  The burst with period 10 and pulse width 25: the tick that finds the timer at 6 drives the
  pin low, \<open>u\<close> is 26, after 27 ticks the machine is in \<open>sig_low_st\<close>, and after 28 it is
  in \<open>wait_st\<close>.
\<close>

theorem one_shot_burst_witness:
  "(\<exists>s'. ticks [10] 7 (transmitter_run ((transmitter_static 25)\<lparr>currentState := wait_st\<rparr>)) = Inr s' \<and>
       unat (signalTimer s') = 7 \<and> pinLevel s' = Some TRANSMITTER_LOW_VALUE \<and>
       currentState s' = sig_low_st)
   \<and> (\<exists>s'. ticks [10] 27 (transmitter_run ((transmitter_static 25)\<lparr>currentState := wait_st\<rparr>)) = Inr s' \<and>
       unat (signalTimer s') = 27 \<and> pinLevel s' = Some TRANSMITTER_LOW_VALUE \<and>
       currentState s' = sig_low_st)
   \<and> (\<exists>s'. ticks [10] 28 (transmitter_run ((transmitter_static 25)\<lparr>currentState := wait_st\<rparr>)) = Inr s' \<and>
       currentState s' = wait_st \<and> pinLevel s' = Some TRANSMITTER_LOW_VALUE \<and>
       \<not> transmitter_running s')"
proof -
  let ?w = "transmitter_run ((transmitter_static 25)\<lparr>currentState := wait_st\<rparr>)"
  have h: "currentState ?w = wait_st" "running ?w" "\<not> continuousModeOn ?w"
    "unat (currentFrequency ?w) < length [10::16 word]"
    "[10::16 word] ! unat (currentFrequency ?w) = 10"
    "3 \<le> unat (10::16 word)" "unat (10::16 word) \<le> unat (pulseWidth ?w)"
    "unat (pulseWidth ?w) + unat (10::16 word) < 65535"
    by (simp_all add: transmitter_run_def transmitter_static_def)
  have pw: "unat (pulseWidth ?w) = 25" by (simp add: transmitter_run_def transmitter_static_def)
  from one_shot_burst [OF h] obtain u where u: "25 \<le> u" "u < 35" "5 < u mod 10"
    "\<forall>t. 25 \<le> t \<and> t < u \<longrightarrow> t mod 10 \<le> 5"
    and shape: "\<forall>t \<le> u. \<exists>s'. ticks [10] (Suc t) ?w = Inr s' \<and>
            unat (signalTimer s') = Suc t \<and> period s' = 10 \<and>
            pinLevel s' = Some (if t mod 10 \<le> 5
                                then TRANSMITTER_HIGH_VALUE else TRANSMITTER_LOW_VALUE) \<and>
            currentState s' = (if t mod 10 \<le> 5 then sig_high_st else sig_low_st) \<and>
            \<not> transmitter_running s'"
    and fin: "\<exists>s'. ticks [10] (Suc (Suc u)) ?w = Inr s' \<and> currentState s' = wait_st \<and>
            pinLevel s' = Some TRANSMITTER_LOW_VALUE \<and> unat (signalTimer s') = Suc u \<and>
            \<not> transmitter_running s' \<and> (\<forall>m. ticks [10] (Suc (Suc u) + m) ?w = Inr s')"
    unfolding pw by (auto simp del: ticks.simps)
  have "u \<noteq> 25" using u(3) by auto
  moreover have "\<not> 26 < u"
  proof
    assume "26 < u"
    with u(4) [rule_format, of 26] have "(26::nat) mod 10 \<le> 5" by simp
    then show False by simp
  qed
  ultimately have u26: "u = 26" using u(1) by simp
  from shape have "\<exists>s'. ticks [10] (Suc 6) ?w = Inr s' \<and>
            unat (signalTimer s') = Suc 6 \<and> period s' = 10 \<and>
            pinLevel s' = Some (if (6::nat) mod 10 \<le> 5
                                then TRANSMITTER_HIGH_VALUE else TRANSMITTER_LOW_VALUE) \<and>
            currentState s' = (if (6::nat) mod 10 \<le> 5 then sig_high_st else sig_low_st) \<and>
            \<not> transmitter_running s'"
    unfolding u26 by (rule allE [of _ 6]) simp
  then have p1: "\<exists>s'. ticks [10] 7 ?w = Inr s' \<and>
       unat (signalTimer s') = 7 \<and> pinLevel s' = Some TRANSMITTER_LOW_VALUE \<and>
       currentState s' = sig_low_st"
    by (auto simp del: ticks.simps)
  from shape have "\<exists>s'. ticks [10] (Suc 26) ?w = Inr s' \<and>
            unat (signalTimer s') = Suc 26 \<and> period s' = 10 \<and>
            pinLevel s' = Some (if (26::nat) mod 10 \<le> 5
                                then TRANSMITTER_HIGH_VALUE else TRANSMITTER_LOW_VALUE) \<and>
            currentState s' = (if (26::nat) mod 10 \<le> 5 then sig_high_st else sig_low_st) \<and>
            \<not> transmitter_running s'"
    unfolding u26 by (rule allE [of _ 26]) simp
  then have p2: "\<exists>s'. ticks [10] 27 ?w = Inr s' \<and>
       unat (signalTimer s') = 27 \<and> pinLevel s' = Some TRANSMITTER_LOW_VALUE \<and>
       currentState s' = sig_low_st"
    by (auto simp del: ticks.simps)
  from fin have p3: "\<exists>s'. ticks [10] 28 ?w = Inr s' \<and>
       currentState s' = wait_st \<and> pinLevel s' = Some TRANSMITTER_LOW_VALUE \<and>
       \<not> transmitter_running s'"
    unfolding u26 by (auto simp del: ticks.simps)
  from p1 p2 p3 show ?thesis by (intro conjI)
qed

text \<open>
  C2 (as stated) fails for \<open>T = 2 \<le> P = 2\<close>: the remainder of the timer by 2 never exceeds 1,
  so the burst never leaves \<open>sig_high_st\<close> and the machine never returns to \<open>wait_st\<close>.
\<close>

theorem one_shot_burst_period_2_never_ends:
  "\<not> (\<exists>n s'. exec [2] ([InitCall, SetPulseWidth 2, Tick, Run, Tick] @ replicate n Tick)
              (transmitter_static 20000) = Inr s'
            \<and> currentState s' = wait_st)"
proof
  assume "\<exists>n s'. exec [2] ([InitCall, SetPulseWidth 2, Tick, Run, Tick] @ replicate n Tick)
              (transmitter_static 20000) = Inr s' \<and> currentState s' = wait_st"
  then obtain n s' where a:
    "exec [2] ([InitCall, SetPulseWidth 2, Tick, Run, Tick] @ replicate n Tick)
        (transmitter_static 20000) = Inr s'"
    "currentState s' = wait_st"
    by blast
  obtain h where h: "exec [2] [InitCall, SetPulseWidth 2, Tick, Run, Tick]
      (transmitter_static 20000) = Inr h" "currentState h = sig_high_st" "period h = 2"
    by (simp add: tick_eval)
  from a(1) h(1) have "ticks [2] n h = Inr s'"
    by (simp only: exec_append exec_replicate_Tick sum.case)
  with high_period_2_stays [OF h(2,3), of "[2]" n] a(2) show False by simp
qed

section \<open>The period of the burst in flight\<close>

text \<open>
  C3. \<open>transmitter_setFrequencyNumber\<close> called during a burst leaves the cached period as
  it is, and so does every sequence of calls other than \<open>transmitter_init\<close> made while the
  burst is in flight. A call changes the period only if it is \<open>transmitter_init\<close> or the tick
  that takes \<open>wait_st\<close> to \<open>sig_high_st\<close>; with a pending request and a selection inside
  the table that tick succeeds and reads the table at the selection current then. The ticks
  of a burst depend neither on the selection nor on the table: after the call they reach, tick
  by tick, the states reached without it, the selection apart, whatever the table. If the
  burst ends in \<open>wait_st\<close> with a request pending, the next tick starts a burst whose period
  is the table entry of the new selection.
\<close>

theorem period_read_only_at_burst_start:
  "(in_burst s \<longrightarrow> period (transmitter_setFrequencyNumber n s) = period s \<and>
       in_burst (transmitter_setFrequencyNumber n s))
   \<and> (exec tbl cs s = Inr s' \<and> InitCall \<notin> set cs \<and> (\<forall>x \<in> set (visited tbl cs s). in_burst x)
        \<longrightarrow> period s' = period s)
   \<and> (step tbl c s = Inr s' \<and> period s' \<noteq> period s
        \<longrightarrow> c = InitCall \<or> (c = Tick \<and> currentState s = wait_st \<and> running s \<and> currentState s' = sig_high_st))
   \<and> (currentState s = wait_st \<and> running s \<and> transmitter_tick tbl s = Inr s'
        \<longrightarrow> currentState s' = sig_high_st \<and> period s' = tbl ! unat (currentFrequency s))
   \<and> (currentState w = wait_st \<and> running w \<and> unat (currentFrequency w) < length tbl
        \<longrightarrow> (\<exists>h. transmitter_tick tbl w = Inr h \<and> currentState h = sig_high_st \<and>
               period h = tbl ! unat (currentFrequency w)))
   \<and> (burst_ticks tbl k b = Some b'
        \<longrightarrow> ticks tbl k b = Inr b' \<and>
            ticks tbl' k (transmitter_setFrequencyNumber n b) =
              Inr (transmitter_setFrequencyNumber n b'))
   \<and> (burst_ticks tbl k b = Some b' \<and> currentState b' = wait_st \<and> running b' \<and>
       unat (ucast n :: 8 word) < length tbl'
        \<longrightarrow> (\<exists>h. ticks tbl' (Suc k) (transmitter_setFrequencyNumber n b) = Inr h \<and>
               currentState h = sig_high_st \<and> period h = tbl' ! unat (ucast n :: 8 word)))"
proof (intro conjI impI)
  assume "currentState s = wait_st \<and> running s \<and> transmitter_tick tbl s = Inr s'"
  then show "currentState s' = sig_high_st" "period s' = tbl ! unat (currentFrequency s)"
    by (auto simp: transmitter_tick_def tick_transition_def tick_action_def mio_writePin_def
       table_read_def Let_def split: if_splits)
next
  assume "currentState w = wait_st \<and> running w \<and> unat (currentFrequency w) < length tbl"
  then show "\<exists>h. transmitter_tick tbl w = Inr h \<and> currentState h = sig_high_st \<and>
               period h = tbl ! unat (currentFrequency w)"
    using burst_start_reads_table [of w tbl] by blast
next
  assume a: "burst_ticks tbl k b = Some b'"
  show "ticks tbl k b = Inr b'" using burst_ticks_run [OF a] by simp
  show "ticks tbl' k (transmitter_setFrequencyNumber n b) = Inr (transmitter_setFrequencyNumber n b')"
    using a by (rule burst_ticks_setFrequencyNumber)
next
  assume a: "burst_ticks tbl k b = Some b' \<and> currentState b' = wait_st \<and> running b' \<and>
       unat (ucast n :: 8 word) < length tbl'"
  let ?e = "transmitter_setFrequencyNumber n b'"
  from a have "burst_ticks tbl k b = Some b'" by simp
  then have e: "ticks tbl' k (transmitter_setFrequencyNumber n b) = Inr ?e"
    by (rule burst_ticks_setFrequencyNumber)
  have "currentState ?e = wait_st" "running ?e" "unat (currentFrequency ?e) < length tbl'"
    using a by (simp_all add: transmitter_setFrequencyNumber_def)
  from burst_start_reads_table [OF this]
  obtain h where "transmitter_tick tbl' ?e = Inr h" "currentState h = sig_high_st"
    "period h = tbl' ! unat (currentFrequency ?e)" by blast
  with ticks_Suc_end [OF e]
  have "ticks tbl' (Suc k) (transmitter_setFrequencyNumber n b) = Inr h \<and>
      currentState h = sig_high_st \<and> period h = tbl' ! unat (ucast n :: 8 word)"
    by (simp add: transmitter_setFrequencyNumber_def del: ticks.simps)
  then show "\<exists>h. ticks tbl' (Suc k) (transmitter_setFrequencyNumber n b) = Inr h \<and>
               currentState h = sig_high_st \<and> period h = tbl' ! unat (ucast n :: 8 word)"
    by blast
qed (auto simp: transmitter_setFrequencyNumber_def in_burst_def exec_period_in_burst
      dest: step_period_changes)

text \<open>
  On the table \<open>[10, 20]\<close>, selecting frequency 1 during a burst of period 10 and ticking:
  the period is still 10. On the table \<open>[3, 5]\<close>, selecting frequency 1 during a burst of
  period 3 in continuous mode: the burst ends after three ticks with period 3, and the fourth
  tick starts a burst of period 5.
\<close>

theorem period_read_only_at_burst_start_witness:
  "exec [10, 20] [SetFrequencyNumber 1, Tick]
     \<lparr>currentState = sig_high_st, signalTimer = 1, continuousModeOn = False, running = False,
      pulseWidth = 20000, debugOn = False, currentFrequency = 0, period = 10,
      pinLog = [TRANSMITTER_HIGH_VALUE]\<rparr>
   = Inr \<lparr>currentState = sig_high_st, signalTimer = 2, continuousModeOn = False, running = False,
      pulseWidth = 20000, debugOn = False, currentFrequency = 1, period = 10,
      pinLog = [TRANSMITTER_HIGH_VALUE]\<rparr>
   \<and> period \<lparr>currentState = sig_high_st, signalTimer = 2, continuousModeOn = False, running = False,
      pulseWidth = 20000, debugOn = False, currentFrequency = 1, period = 10,
      pinLog = [TRANSMITTER_HIGH_VALUE]\<rparr> = 10
   \<and> ticks [3, 5] 3 (transmitter_setFrequencyNumber 1
       \<lparr>currentState = sig_high_st, signalTimer = 1, continuousModeOn = True, running = True,
        pulseWidth = 0, debugOn = False, currentFrequency = 0, period = 3,
        pinLog = [TRANSMITTER_HIGH_VALUE]\<rparr>)
     = Inr \<lparr>currentState = wait_st, signalTimer = 3, continuousModeOn = True, running = True,
        pulseWidth = 0, debugOn = False, currentFrequency = 1, period = 3,
        pinLog = [TRANSMITTER_LOW_VALUE, TRANSMITTER_HIGH_VALUE]\<rparr>
   \<and> (\<exists>h. ticks [3, 5] 4 (transmitter_setFrequencyNumber 1
       \<lparr>currentState = sig_high_st, signalTimer = 1, continuousModeOn = True, running = True,
        pulseWidth = 0, debugOn = False, currentFrequency = 0, period = 3,
        pinLog = [TRANSMITTER_HIGH_VALUE]\<rparr>) = Inr h \<and>
       currentState h = sig_high_st \<and> period h = 5)"
proof -
  let ?b = "\<lparr>currentState = sig_high_st, signalTimer = 1, continuousModeOn = False, running = False,
      pulseWidth = 20000, debugOn = False, currentFrequency = 0, period = 10,
      pinLog = [TRANSMITTER_HIGH_VALUE]\<rparr>"
  let ?b' = "\<lparr>currentState = sig_high_st, signalTimer = 2, continuousModeOn = False, running = False,
      pulseWidth = 20000, debugOn = False, currentFrequency = 1, period = 10,
      pinLog = [TRANSMITTER_HIGH_VALUE]\<rparr>"
  let ?c = "\<lparr>currentState = sig_high_st, signalTimer = 1, continuousModeOn = True, running = True,
        pulseWidth = 0, debugOn = False, currentFrequency = 0, period = 3,
        pinLog = [TRANSMITTER_HIGH_VALUE]\<rparr>"
  let ?c' = "\<lparr>currentState = wait_st, signalTimer = 3, continuousModeOn = True, running = True,
        pulseWidth = 0, debugOn = False, currentFrequency = 0, period = 3,
        pinLog = [TRANSMITTER_LOW_VALUE, TRANSMITTER_HIGH_VALUE]\<rparr>"
  have e: "exec [10, 20] [SetFrequencyNumber 1, Tick] ?b = Inr ?b'"
    by (simp add: tick_eval)
  have v: "\<forall>x \<in> set (visited [10, 20] [SetFrequencyNumber 1, Tick] ?b). in_burst x"
    by (simp add: tick_eval in_burst_def)
  have i: "InitCall \<notin> set [SetFrequencyNumber 1, Tick]" by simp
  have ix: "unat (ucast (1::16 word) :: 8 word) < length [3, 5 :: 16 word]" by simp
  note inst = period_read_only_at_burst_start
    [where s = ?b and tbl = "[10, 20]" and cs = "[SetFrequencyNumber 1, Tick]" and s' = ?b'
       and b = ?c and b' = ?c' and k = 3 and tbl' = "[3, 5]" and n = 1]
  from inst have "exec [10, 20] [SetFrequencyNumber 1, Tick] ?b = Inr ?b' \<and>
      InitCall \<notin> set [SetFrequencyNumber 1, Tick] \<and>
      (\<forall>x \<in> set (visited [10, 20] [SetFrequencyNumber 1, Tick] ?b). in_burst x)
      \<longrightarrow> period ?b' = period ?b"
    by blast
  with e v i have p1: "period ?b' = period ?b" by blast
  have "burst_ticks [10, 20] 3 ?c = Some ?c'"
    by (simp add: tick_eval in_burst_def burst_ticks_numeral)
  with inst have p2: "ticks [3, 5] 3 (transmitter_setFrequencyNumber 1 ?c) =
      Inr (transmitter_setFrequencyNumber 1 ?c')"
    by blast
  have st: "currentState ?c' = wait_st" "running ?c'" by simp_all
  from inst \<open>burst_ticks [10, 20] 3 ?c = Some ?c'\<close> st ix
  have p3: "\<exists>h. ticks [3, 5] (Suc 3) (transmitter_setFrequencyNumber 1 ?c) = Inr h \<and>
       currentState h = sig_high_st \<and> period h = [3, 5] ! unat (ucast (1::16 word) :: 8 word)"
    by blast
  have "Suc 3 = 4" by simp
  with p3 have p3': "\<exists>h. ticks [3, 5] 4 (transmitter_setFrequencyNumber 1 ?c) = Inr h \<and>
       currentState h = sig_high_st \<and> period h = 5"
    by (simp del: ticks.simps)
  from e p1 p2 p3' show ?thesis
    by (simp add: transmitter_setFrequencyNumber_def del: ticks.simps)
qed

section \<open>Continuous mode\<close>

text \<open>
  C4. In continuous mode, after \<open>transmitter_run\<close>, \<open>transmitter_running\<close> is true after
  every sequence of ticks and other calls that neither switches continuous mode off nor
  initialises the module again.
\<close>

theorem continuous_mode_keeps_running:
  assumes "continuousModeOn s"
    and "SetContinuousMode False \<notin> set cs" "SetContinuousModeOn False \<notin> set cs"
    and "InitCall \<notin> set cs"
    and "exec tbl cs (transmitter_run s) = Inr s'"
  shows "transmitter_running s'"
  using exec_keeps_running [OF assms(5) _ _ assms(2,3,4)] assms(1)
  by (simp add: transmitter_run_def transmitter_running_def)

text \<open>Three ticks in continuous mode on the table \<open>[10]\<close>.\<close>

theorem continuous_mode_keeps_running_witness:
  "exec [10] [Tick, Tick, Tick]
     (transmitter_run (transmitter_setContinuousMode True (transmitter_static 20000)))
   = Inr \<lparr>currentState = sig_high_st, signalTimer = 2, continuousModeOn = True, running = True,
      pulseWidth = 20000, debugOn = False, currentFrequency = 0, period = 10,
      pinLog = [TRANSMITTER_HIGH_VALUE]\<rparr>
   \<and> transmitter_running \<lparr>currentState = sig_high_st, signalTimer = 2, continuousModeOn = True,
      running = True, pulseWidth = 20000, debugOn = False, currentFrequency = 0, period = 10,
      pinLog = [TRANSMITTER_HIGH_VALUE]\<rparr>"
proof -
  have e: "exec [10] [Tick, Tick, Tick]
     (transmitter_run (transmitter_setContinuousMode True (transmitter_static 20000)))
   = Inr \<lparr>currentState = sig_high_st, signalTimer = 2, continuousModeOn = True, running = True,
      pulseWidth = 20000, debugOn = False, currentFrequency = 0, period = 10,
      pinLog = [TRANSMITTER_HIGH_VALUE]\<rparr>"
    by (simp add: tick_eval)
  have c: "continuousModeOn (transmitter_setContinuousMode True (transmitter_static 20000))"
    by (simp add: transmitter_setContinuousMode_def)
  from continuous_mode_keeps_running [OF c _ _ _ e] e show ?thesis by simp
qed

section \<open>A run request made during a burst\<close>

text \<open>
  C5 (as amended). \<open>transmitter_run\<close> called during a one-shot burst does not disturb the
  burst in flight: as long as the ticks are made in \<open>sig_high_st\<close> or \<open>sig_low_st\<close>, the
  state, the timer, the period and the pin log are the ones reached without the call. It does
  set the run request, so \<open>transmitter_running\<close> is true from then on, and once the burst
  is back in \<open>wait_st\<close> the next tick starts another burst. Only the repetition of the call
  is idempotent.
\<close>

theorem run_in_burst_latches_request:
  "transmitter_run (transmitter_run s) = transmitter_run s
   \<and> (burst_ticks tbl n s = Some s' \<longrightarrow>
        ticks tbl n s = Inr s' \<and> ticks tbl n (transmitter_run s) = Inr (transmitter_run s') \<and>
        transmitter_running (transmitter_run s'))
   \<and> (currentState s' = wait_st \<and> \<not> continuousModeOn s' \<and> unat (currentFrequency s') < length tbl \<longrightarrow>
        (\<exists>s''. transmitter_tick tbl (transmitter_run s') = Inr s'' \<and> currentState s'' = sig_high_st
           \<and> \<not> transmitter_running s''))"
proof (intro conjI impI)
  assume "currentState s' = wait_st \<and> \<not> continuousModeOn s' \<and> unat (currentFrequency s') < length tbl"
  then show "\<exists>s''. transmitter_tick tbl (transmitter_run s') = Inr s'' \<and>
      currentState s'' = sig_high_st \<and> \<not> transmitter_running s''"
    by (simp add: tick_wait_run transmitter_run_def transmitter_running_def)
qed (simp_all add: burst_ticks_run, simp_all add: transmitter_run_def transmitter_running_def)

text \<open>Two ticks of a burst of period 10, with and without the extra call.\<close>

theorem run_in_burst_latches_request_witness:
  "burst_ticks [10] 2
     \<lparr>currentState = sig_high_st, signalTimer = 1, continuousModeOn = False, running = False,
      pulseWidth = 20000, debugOn = False, currentFrequency = 0, period = 10,
      pinLog = [TRANSMITTER_HIGH_VALUE]\<rparr>
   = Some \<lparr>currentState = sig_high_st, signalTimer = 3, continuousModeOn = False, running = False,
      pulseWidth = 20000, debugOn = False, currentFrequency = 0, period = 10,
      pinLog = [TRANSMITTER_HIGH_VALUE]\<rparr>
   \<and> ticks [10] 2 (transmitter_run
     \<lparr>currentState = sig_high_st, signalTimer = 1, continuousModeOn = False, running = False,
      pulseWidth = 20000, debugOn = False, currentFrequency = 0, period = 10,
      pinLog = [TRANSMITTER_HIGH_VALUE]\<rparr>)
   = Inr \<lparr>currentState = sig_high_st, signalTimer = 3, continuousModeOn = False, running = True,
      pulseWidth = 20000, debugOn = False, currentFrequency = 0, period = 10,
      pinLog = [TRANSMITTER_HIGH_VALUE]\<rparr>"
proof -
  let ?b = "\<lparr>currentState = sig_high_st, signalTimer = 1, continuousModeOn = False, running = False,
      pulseWidth = 20000, debugOn = False, currentFrequency = 0, period = 10,
      pinLog = [TRANSMITTER_HIGH_VALUE]\<rparr>"
  let ?b' = "\<lparr>currentState = sig_high_st, signalTimer = 3, continuousModeOn = False, running = False,
      pulseWidth = 20000, debugOn = False, currentFrequency = 0, period = 10,
      pinLog = [TRANSMITTER_HIGH_VALUE]\<rparr>"
  have e: "burst_ticks [10] 2 ?b = Some ?b'"
    by (simp add: tick_eval in_burst_def burst_ticks_numeral)
  from run_in_burst_latches_request [where s = ?b and tbl = "[10]" and n = 2 and s' = ?b']
  have "burst_ticks [10] 2 ?b = Some ?b' \<longrightarrow>
      ticks [10] 2 (transmitter_run ?b) = Inr (transmitter_run ?b')"
    by blast
  with e have "ticks [10] 2 (transmitter_run ?b) = Inr (transmitter_run ?b')" by blast
  with e show ?thesis by (simp add: transmitter_run_def del: ticks.simps)
qed

text \<open>
  C5 (as stated) fails. On the table \<open>[3]\<close> with pulse width 0, a burst takes four ticks.
  Without a second \<open>run\<close> the machine is then idle in \<open>wait_st\<close>; with a second \<open>run\<close>
  made during the burst, the same number of ticks later a second burst has started.
\<close>

theorem run_in_burst_starts_second_burst:
  "outcome (exec [3] [InitCall, SetPulseWidth 0, Tick, Run, Tick, Tick, Tick, Tick, Tick]
      (transmitter_static 20000)) = Some (wait_st, 3, False, Some TRANSMITTER_LOW_VALUE)
   \<and> outcome (exec [3] [InitCall, SetPulseWidth 0, Tick, Run, Tick, Tick, Run, Tick, Tick, Tick]
      (transmitter_static 20000)) = Some (sig_high_st, 1, False, Some TRANSMITTER_HIGH_VALUE)"
  by (simp add: tick_eval)

section \<open>Leaving continuous mode during a burst\<close>




section \<open>Two worked bursts\<close>

text \<open>
  C7 (as amended). With period 10 and pulse width 25, from \<open>sig_high_st\<close> with the timer at 0,
  the machine moves to \<open>sig_low_st\<close> in the tick that finds the timer at 6, to
  \<open>sig_high_st\<close> at 10, to \<open>sig_low_st\<close> at 16, to \<open>sig_high_st\<close> at 20, to
  \<open>sig_low_st\<close> at 26, and to \<open>wait_st\<close> at 27: the pulse width is compared in
  \<open>sig_low_st\<close> only. Each line gives the state and the timer after that many ticks.
\<close>

theorem burst_10_25_transitions:
  "state_timer (ticks tbl 6 (s\<lparr>currentState := sig_high_st, signalTimer := 0, period := 10, pulseWidth := 25\<rparr>)) = Some (sig_high_st, 6)
   \<and> state_timer (ticks tbl 7 (s\<lparr>currentState := sig_high_st, signalTimer := 0, period := 10, pulseWidth := 25\<rparr>)) = Some (sig_low_st, 7)
   \<and> state_timer (ticks tbl 10 (s\<lparr>currentState := sig_high_st, signalTimer := 0, period := 10, pulseWidth := 25\<rparr>)) = Some (sig_low_st, 10)
   \<and> state_timer (ticks tbl 11 (s\<lparr>currentState := sig_high_st, signalTimer := 0, period := 10, pulseWidth := 25\<rparr>)) = Some (sig_high_st, 11)
   \<and> state_timer (ticks tbl 16 (s\<lparr>currentState := sig_high_st, signalTimer := 0, period := 10, pulseWidth := 25\<rparr>)) = Some (sig_high_st, 16)
   \<and> state_timer (ticks tbl 17 (s\<lparr>currentState := sig_high_st, signalTimer := 0, period := 10, pulseWidth := 25\<rparr>)) = Some (sig_low_st, 17)
   \<and> state_timer (ticks tbl 20 (s\<lparr>currentState := sig_high_st, signalTimer := 0, period := 10, pulseWidth := 25\<rparr>)) = Some (sig_low_st, 20)
   \<and> state_timer (ticks tbl 21 (s\<lparr>currentState := sig_high_st, signalTimer := 0, period := 10, pulseWidth := 25\<rparr>)) = Some (sig_high_st, 21)
   \<and> state_timer (ticks tbl 26 (s\<lparr>currentState := sig_high_st, signalTimer := 0, period := 10, pulseWidth := 25\<rparr>)) = Some (sig_high_st, 26)
   \<and> state_timer (ticks tbl 27 (s\<lparr>currentState := sig_high_st, signalTimer := 0, period := 10, pulseWidth := 25\<rparr>)) = Some (sig_low_st, 27)
   \<and> state_timer (ticks tbl 28 (s\<lparr>currentState := sig_high_st, signalTimer := 0, period := 10, pulseWidth := 25\<rparr>)) = Some (wait_st, 27)"
  by (simp add: tick_eval state_timer_def)

text \<open>
  C7 (as stated) fails: the tick that finds the timer at 26 (the 27th) finds the machine in
  \<open>sig_high_st\<close> and takes it to \<open>sig_low_st\<close>, not to \<open>wait_st\<close>.
\<close>

theorem burst_10_25_not_wait_at_26:
  "state_timer (ticks [10] 27
     ((transmitter_static 25)\<lparr>currentState := sig_high_st, period := 10\<rparr>)) = Some (sig_low_st, 27)"
  by (simp add: tick_eval state_timer_def)

text \<open>
  C8 (as amended). With pulse width 0 and a period \<open>T\<close> of at least 3, after \<open>run\<close> in
  non-continuous mode the machine stays in \<open>sig_high_st\<close> with the pin high while the timer
  runs from 0 to \<open>T div 2\<close>, moves to \<open>sig_low_st\<close> in the tick that finds the timer at
  \<open>T div 2 + 1\<close>, and returns to \<open>wait_st\<close> in the tick after that: the pulse is one high
  half cycle of \<open>T div 2 + 1\<close> ticks, since the comparison with the pulse width is made in
  \<open>sig_low_st\<close> only. The comparison is strict, for every pulse width: a tick that finds
  the machine in \<open>sig_low_st\<close> with the timer equal to the pulse width does not go to
  \<open>wait_st\<close> and counts on, a tick that finds the timer one above it goes to \<open>wait_st\<close>.
\<close>

theorem zero_width_pulse:
  assumes w: "currentState s = wait_st" "running s" "\<not> continuousModeOn s"
    and idx: "unat (currentFrequency s) < length tbl"
    and T: "tbl ! unat (currentFrequency s) = T"
    and T3: "3 \<le> unat T" and P0: "pulseWidth s = 0"
  shows "(\<forall>k \<le> unat T div 2. \<exists>s'. ticks tbl (Suc k) s = Inr s' \<and>
            currentState s' = sig_high_st \<and> pinLevel s' = Some TRANSMITTER_HIGH_VALUE \<and>
            unat (signalTimer s') = Suc k)
       \<and> (\<exists>s'. ticks tbl (unat T div 2 + 2) s = Inr s' \<and>
            currentState s' = sig_low_st \<and> pinLevel s' = Some TRANSMITTER_LOW_VALUE \<and>
            unat (signalTimer s') = unat T div 2 + 2)
       \<and> (\<exists>s'. ticks tbl (unat T div 2 + 3) s = Inr s' \<and>
            currentState s' = wait_st \<and> pinLevel s' = Some TRANSMITTER_LOW_VALUE \<and>
            \<not> transmitter_running s')
       \<and> (currentState l = sig_low_st \<and> period l \<noteq> 0 \<and>
            unat (signalTimer l) = unat (pulseWidth l) \<longrightarrow>
              (\<exists>l'. transmitter_tick tbl l = Inr l' \<and> currentState l' \<noteq> wait_st \<and>
                    signalTimer l' = signalTimer l + 1))
       \<and> (currentState l = sig_low_st \<and> unat (signalTimer l) = Suc (unat (pulseWidth l)) \<longrightarrow>
              transmitter_tick tbl l = Inr (l\<lparr>currentState := wait_st\<rparr>))"
proof -
  from T3 have T0: "T \<noteq> 0" by auto
  have Tlt: "unat T < 65536" using unsigned_less [of T] by simp
  have ph: "burst_phase (unat T) j" if "j \<le> unat T div 2" for j
    using that T3 by (simp add: burst_phase_def)
  have pat: "\<exists>s'. ticks tbl (Suc k) s = Inr s' \<and> burst_tick s T k s'"
    if "k \<le> unat T div 2 + 1" for k
    using that Tlt by (intro burst_pattern [OF w idx T T0]) (auto intro: ph)
  have high: "\<forall>k \<le> unat T div 2. \<exists>s'. ticks tbl (Suc k) s = Inr s' \<and>
            currentState s' = sig_high_st \<and> pinLevel s' = Some TRANSMITTER_HIGH_VALUE \<and>
            unat (signalTimer s') = Suc k"
  proof (intro allI impI)
    fix k assume k: "k \<le> unat T div 2"
    then obtain s' where "ticks tbl (Suc k) s = Inr s'" "burst_tick s T k s'"
      using pat [of k] by auto
    then show "\<exists>s'. ticks tbl (Suc k) s = Inr s' \<and>
            currentState s' = sig_high_st \<and> pinLevel s' = Some TRANSMITTER_HIGH_VALUE \<and>
            unat (signalTimer s') = Suc k"
      using ph [OF k] by (intro exI [of _ s']) (simp add: burst_tick_def)
  qed
  have nph: "\<not> burst_phase (unat T) (unat T div 2 + 1)"
    using T3 by (simp add: burst_phase_def)
  obtain sl where sl: "ticks tbl (Suc (unat T div 2 + 1)) s = Inr sl"
    "burst_tick s T (unat T div 2 + 1) sl"
    using pat [of "unat T div 2 + 1"] by auto
  from sl(2) nph have fl: "currentState sl = sig_low_st" "pinLevel sl = Some TRANSMITTER_LOW_VALUE"
    "unat (signalTimer sl) = unat T div 2 + 2" "pulseWidth sl = 0" "\<not> running sl"
    by (simp_all add: burst_tick_def P0)
  have low: "\<exists>s'. ticks tbl (unat T div 2 + 2) s = Inr s' \<and>
            currentState s' = sig_low_st \<and> pinLevel s' = Some TRANSMITTER_LOW_VALUE \<and>
            unat (signalTimer s') = unat T div 2 + 2"
    using sl(1) fl by (intro exI [of _ sl]) (simp del: ticks.simps)
  have "transmitter_tick tbl sl = Inr (sl\<lparr>currentState := wait_st\<rparr>)"
    using fl by (intro tick_low_wait) simp_all
  with ticks_Suc_end [OF sl(1)]
  have "ticks tbl (Suc (Suc (unat T div 2 + 1))) s = Inr (sl\<lparr>currentState := wait_st\<rparr>)"
    by (simp only:)
  moreover have "Suc (Suc (unat T div 2 + 1)) = unat T div 2 + 3" by simp
  ultimately have "ticks tbl (unat T div 2 + 3) s = Inr (sl\<lparr>currentState := wait_st\<rparr>)"
    by (simp only:)
  then have wait: "\<exists>s'. ticks tbl (unat T div 2 + 3) s = Inr s' \<and>
            currentState s' = wait_st \<and> pinLevel s' = Some TRANSMITTER_LOW_VALUE \<and>
            \<not> transmitter_running s'"
    using fl by (intro exI [of _ "sl\<lparr>currentState := wait_st\<rparr>"])
      (simp add: pinLevel_def transmitter_running_def del: ticks.simps)
  have strict: "currentState l = sig_low_st \<and> period l \<noteq> 0 \<and>
            unat (signalTimer l) = unat (pulseWidth l) \<longrightarrow>
              (\<exists>l'. transmitter_tick tbl l = Inr l' \<and> currentState l' \<noteq> wait_st \<and>
                    signalTimer l' = signalTimer l + 1)"
    by (simp add: tick_low)
  have past: "currentState l = sig_low_st \<and> unat (signalTimer l) = Suc (unat (pulseWidth l)) \<longrightarrow>
              transmitter_tick tbl l = Inr (l\<lparr>currentState := wait_st\<rparr>)"
    by (simp add: tick_low_wait)
  from high low wait strict past show ?thesis by (intro conjI)
qed

text \<open>
  Pulse width 0 on the table \<open>[10]\<close>: low after 7 ticks, idle after 8. In \<open>sig_low_st\<close>
  with timer and pulse width both 25, the tick counts on to 26.
\<close>

theorem zero_width_pulse_witness:
  "(\<exists>s'. ticks [10] 7 (transmitter_run ((transmitter_static 0)\<lparr>currentState := wait_st\<rparr>)) = Inr s' \<and>
       currentState s' = sig_low_st \<and> pinLevel s' = Some TRANSMITTER_LOW_VALUE \<and>
       unat (signalTimer s') = 7)
   \<and> (\<exists>s'. ticks [10] 8 (transmitter_run ((transmitter_static 0)\<lparr>currentState := wait_st\<rparr>)) = Inr s' \<and>
       currentState s' = wait_st \<and> pinLevel s' = Some TRANSMITTER_LOW_VALUE \<and>
       \<not> transmitter_running s')
   \<and> (\<exists>l'. transmitter_tick [10]
         \<lparr>currentState = sig_low_st, signalTimer = 25, continuousModeOn = False, running = False,
          pulseWidth = 25, debugOn = False, currentFrequency = 0, period = 10,
          pinLog = [TRANSMITTER_LOW_VALUE]\<rparr> = Inr l' \<and>
        currentState l' \<noteq> wait_st \<and> signalTimer l' = 26)"
proof -
  let ?w = "transmitter_run ((transmitter_static 0)\<lparr>currentState := wait_st\<rparr>)"
  let ?l = "\<lparr>currentState = sig_low_st, signalTimer = 25, continuousModeOn = False, running = False,
          pulseWidth = 25, debugOn = False, currentFrequency = 0, period = 10,
          pinLog = [TRANSMITTER_LOW_VALUE]\<rparr>"
  have h: "currentState ?w = wait_st" "running ?w" "\<not> continuousModeOn ?w"
    "unat (currentFrequency ?w) < length [10::16 word]"
    "[10::16 word] ! unat (currentFrequency ?w) = 10"
    "3 \<le> unat (10::16 word)" "pulseWidth ?w = 0"
    by (simp_all add: transmitter_run_def transmitter_static_def)
  note z = zero_width_pulse [OF h, where l = ?l]
  from z [THEN conjunct2, THEN conjunct1]
  have p1: "\<exists>s'. ticks [10] 7 ?w = Inr s' \<and>
       currentState s' = sig_low_st \<and> pinLevel s' = Some TRANSMITTER_LOW_VALUE \<and>
       unat (signalTimer s') = 7"
    by (auto simp del: ticks.simps)
  from z [THEN conjunct2, THEN conjunct2, THEN conjunct1]
  have p2: "\<exists>s'. ticks [10] 8 ?w = Inr s' \<and>
       currentState s' = wait_st \<and> pinLevel s' = Some TRANSMITTER_LOW_VALUE \<and>
       \<not> transmitter_running s'"
    by (auto simp del: ticks.simps)
  from z [THEN conjunct2, THEN conjunct2, THEN conjunct2, THEN conjunct1]
  have p3: "\<exists>l'. transmitter_tick [10] ?l = Inr l' \<and> currentState l' \<noteq> wait_st \<and>
       signalTimer l' = 26"
    by simp
  from p1 p2 p3 show ?thesis by (intro conjI)
qed

text \<open>
  C8 (as stated) fails: on the table \<open>[10]\<close> with pulse width 0, the tick after the one
  that started the burst leaves the machine in \<open>sig_high_st\<close> with the pin high.
\<close>

theorem zero_width_pulse_not_single_tick:
  "outcome (exec [10] [InitCall, SetPulseWidth 0, Tick, Run, Tick, Tick] (transmitter_static 20000))
     = Some (sig_high_st, 2, False, Some TRANSMITTER_HIGH_VALUE)"
  by (simp add: tick_eval)

section \<open>A pulse width beyond the range of the timer\<close>

text \<open>
  C10 (as amended). After \<open>transmitter_setPulseWidth\<close> with a width of at least \<open>2 ^ 16\<close>,
  a burst in flight with a non-zero period never ends: after any number of ticks the machine
  is in \<open>sig_high_st\<close> or \<open>sig_low_st\<close>, since the 16-bit timer never exceeds the width.
  With a period of at least 3 it keeps alternating: from every point on, both states are
  reached again. With a period of 1 or 2 it does not alternate: from \<open>sig_high_st\<close> it
  stays in \<open>sig_high_st\<close>.
\<close>

theorem wide_pulse_never_ends:
  assumes w: "65536 \<le> unat width" and b: "in_burst s" and p0: "period s \<noteq> 0"
  shows "\<exists>s'. ticks tbl n (transmitter_setPulseWidth width s) = Inr s' \<and>
           (currentState s' = sig_high_st \<or> currentState s' = sig_low_st) \<and>
           (3 \<le> unat (period s) \<longrightarrow>
              (\<exists>m h. ticks tbl (n + m) (transmitter_setPulseWidth width s) = Inr h \<and>
                      currentState h = sig_high_st) \<and>
              (\<exists>m l. ticks tbl (n + m) (transmitter_setPulseWidth width s) = Inr l \<and>
                      currentState l = sig_low_st)) \<and>
           (unat (period s) \<le> 2 \<and> currentState s = sig_high_st \<longrightarrow>
              currentState s' = sig_high_st)"
proof -
  let ?s0 = "transmitter_setPulseWidth width s"
  have s0: "in_burst ?s0" "period ?s0 = period s" "pulseWidth ?s0 = width"
    using b by (simp_all add: transmitter_setPulseWidth_def in_burst_def)
  have "\<exists>s'. ticks tbl n ?s0 = Inr s' \<and> in_burst s' \<and> same_config ?s0 s'"
    using w p0 by (intro wide_ticks) (simp_all add: s0)
  then obtain s' where s': "ticks tbl n ?s0 = Inr s'" "in_burst s'" "same_config ?s0 s'" by blast
  from s'(3) have cfg: "period s' = period s" "pulseWidth s' = width"
    by (simp_all add: same_config_def s0)
  have alt: "(\<exists>m h. ticks tbl (n + m) ?s0 = Inr h \<and> currentState h = sig_high_st) \<and>
             (\<exists>m l. ticks tbl (n + m) ?s0 = Inr l \<and> currentState l = sig_low_st)"
    if T3: "3 \<le> unat (period s)"
  proof
    have "\<exists>m h. ticks tbl m s' = Inr h \<and> currentState h = sig_high_st"
      using T3 w by (intro eventually_high s'(2)) (simp_all add: cfg)
    then show "\<exists>m h. ticks tbl (n + m) ?s0 = Inr h \<and> currentState h = sig_high_st"
      using ticks_add [OF s'(1)] by (simp only:)
    have "\<exists>m l. ticks tbl m s' = Inr l \<and> currentState l = sig_low_st"
      using T3 by (intro eventually_low s'(2)) (simp_all add: cfg)
    then show "\<exists>m l. ticks tbl (n + m) ?s0 = Inr l \<and> currentState l = sig_low_st"
      using ticks_add [OF s'(1)] by (simp only:)
  qed
  have stay: "currentState s' = sig_high_st"
    if "unat (period s) \<le> 2 \<and> currentState s = sig_high_st"
  proof -
    have "\<exists>h. ticks tbl n ?s0 = Inr h \<and> currentState h = sig_high_st"
      using that p0 by (intro high_small_period_stays) (simp_all add: s0 transmitter_setPulseWidth_def)
    with s'(1) show ?thesis by simp
  qed
  show ?thesis
    using s'(1,2) alt stay by (intro exI [of _ s']) (simp add: in_burst_def del: ticks.simps)
qed

text \<open>Width \<open>2 ^ 16\<close>, period 10, five ticks into the burst.\<close>

theorem wide_pulse_never_ends_witness:
  "\<exists>s'. ticks [] 5 (transmitter_setPulseWidth 65536
       \<lparr>currentState = sig_high_st, signalTimer = 1, continuousModeOn = False, running = False,
        pulseWidth = 20000, debugOn = False, currentFrequency = 0, period = 10,
        pinLog = [TRANSMITTER_HIGH_VALUE]\<rparr>) = Inr s' \<and>
     (currentState s' = sig_high_st \<or> currentState s' = sig_low_st) \<and>
     (\<exists>m h. ticks [] (5 + m) (transmitter_setPulseWidth 65536
       \<lparr>currentState = sig_high_st, signalTimer = 1, continuousModeOn = False, running = False,
        pulseWidth = 20000, debugOn = False, currentFrequency = 0, period = 10,
        pinLog = [TRANSMITTER_HIGH_VALUE]\<rparr>) = Inr h \<and> currentState h = sig_high_st) \<and>
     (\<exists>m l. ticks [] (5 + m) (transmitter_setPulseWidth 65536
       \<lparr>currentState = sig_high_st, signalTimer = 1, continuousModeOn = False, running = False,
        pulseWidth = 20000, debugOn = False, currentFrequency = 0, period = 10,
        pinLog = [TRANSMITTER_HIGH_VALUE]\<rparr>) = Inr l \<and> currentState l = sig_low_st)"
proof -
  let ?b = "\<lparr>currentState = sig_high_st, signalTimer = 1, continuousModeOn = False, running = False,
        pulseWidth = 20000, debugOn = False, currentFrequency = 0, period = 10,
        pinLog = [TRANSMITTER_HIGH_VALUE]\<rparr>"
  have h: "65536 \<le> unat (65536 :: 32 word)" "in_burst ?b" "period ?b \<noteq> 0"
    by (simp_all add: in_burst_def)
  have p: "3 \<le> unat (period ?b)" by simp
  from wide_pulse_never_ends [OF h, of "[]" 5] p show ?thesis by blast
qed

text \<open>
  C10 (as stated) fails for the alternation: with width \<open>2 ^ 16\<close> on the table \<open>[2]\<close> the
  burst never reaches \<open>sig_low_st\<close>.
\<close>

theorem wide_pulse_period_2_never_low:
  "\<not> (\<exists>n s'. exec [2] ([InitCall, SetPulseWidth 65536, Tick, Run, Tick] @ replicate n Tick)
              (transmitter_static 20000) = Inr s'
            \<and> currentState s' = sig_low_st)"
proof
  assume "\<exists>n s'. exec [2] ([InitCall, SetPulseWidth 65536, Tick, Run, Tick] @ replicate n Tick)
              (transmitter_static 20000) = Inr s' \<and> currentState s' = sig_low_st"
  then obtain n s' where a:
    "exec [2] ([InitCall, SetPulseWidth 65536, Tick, Run, Tick] @ replicate n Tick)
        (transmitter_static 20000) = Inr s'"
    "currentState s' = sig_low_st"
    by blast
  obtain h where h: "exec [2] [InitCall, SetPulseWidth 65536, Tick, Run, Tick]
      (transmitter_static 20000) = Inr h" "currentState h = sig_high_st" "period h = 2"
    by (simp add: tick_eval)
  from a(1) h(1) have "ticks [2] n h = Inr s'"
    by (simp only: exec_append exec_replicate_Tick sum.case)
  with high_period_2_stays [OF h(2,3), of "[2]" n] a(2) show False by simp
qed

section \<open>The frequency selection\<close>

text \<open>
  C9 (as amended). The selection is kept in eight bits: reading it back after
  \<open>setFrequencyNumber n\<close> gives \<open>n mod 256\<close>, which is \<open>n\<close> exactly when \<open>n < 256\<close>.
\<close>

theorem frequency_number_roundtrip_mod_256:
  "unat (transmitter_getFrequencyNumber (transmitter_setFrequencyNumber n s)) = unat n mod 256
   \<and> (transmitter_getFrequencyNumber (transmitter_setFrequencyNumber n s) = n) = (unat n < 256)"
proof -
  have u: "unat (ucast (ucast n :: 8 word) :: 16 word) = unat n mod 256"
    by (simp add: unsigned_ucast_eq take_bit_eq_mod unat_mod_distrib)
  have "((ucast (ucast n :: 8 word) :: 16 word) = n) = (unat n mod 256 = unat n)"
    by (simp add: word_unat_eq_iff u)
  also have "\<dots> = (unat n < 256)"
    by (metis mod_less mod_less_divisor zero_less_numeral)
  finally show ?thesis
    using u by (simp add: transmitter_getFrequencyNumber_def transmitter_setFrequencyNumber_def)
qed

text \<open>
  C9 (as stated) fails at \<open>n = 256\<close>: the value read back is 0.
\<close>

theorem frequency_number_roundtrip_counterexample:
  "transmitter_getFrequencyNumber
     (transmitter_setFrequencyNumber 256 (transmitter_static 20000)) \<noteq> 256"
  by (simp add: transmitter_getFrequencyNumber_def transmitter_setFrequencyNumber_def
      transmitter_static_def)

end
